theory Spec2Isabelle
  imports Complex_Main "HOL-Library.Log_Nat"
begin

section \<open>Block Blast: the rules engine of \<^verbatim>\<open>script.js\<close>\<close>

text \<open>
  The class \<^verbatim>\<open>Game\<close> of \<^verbatim>\<open>script.js\<close> is embedded by explicit state passing. Only
  the fields that carry game logic are kept; DOM nodes, styles, animations and timers
  are rendering and are left out. The modal's \<^verbatim>\<open>hidden\<close> class and the final-score text
  are kept, because they are the only trace of \<^verbatim>\<open>triggerGameOver\<close>.
\<close>

subsection \<open>Data model\<close>

text \<open>\<^verbatim>\<open>CONFIG.GRID_SIZE\<close> and \<^verbatim>\<open>CONFIG.COLORS\<close>.\<close>

definition GRID_SIZE :: nat where
  "GRID_SIZE = 8"

definition COLORS :: "string list" where
  "COLORS = [''#FF5733'', ''#33FF57'', ''#3357FF'', ''#F333FF'', ''#33FFF5'', ''#FFD133'']"

text \<open>
  A shape is an array of rows of numbers (0 or 1 in every literal of the source); a piece
  is the object \<^verbatim>\<open>{ shape, color }\<close>; a grid cell is \<^verbatim>\<open>null\<close> (\<open>None\<close>) or a color.
\<close>

type_synonym matrix = "nat list list"

record piece =
  shape :: matrix
  color :: string

type_synonym board = "string option list list"

text \<open>
  The fields of \<^verbatim>\<open>Game\<close>. \<open>highScore\<close> is a number: the value read back from
  \<^verbatim>\<open>localStorage\<close> is a decimal string the game itself wrote, which the comparison of
  \<^verbatim>\<open>updateScore\<close> converts to that number. \<open>storage\<close> is the entry \<^verbatim>\<open>blockBlastHighScore\<close> of
  \<^verbatim>\<open>localStorage\<close>, \<open>modalHidden\<close> the class \<^verbatim>\<open>hidden\<close> of the game-over modal and
  \<open>finalScore\<close> the text of \<^verbatim>\<open>finalScoreEl\<close>.
\<close>

record game =
  grid :: board
  score :: int
  highScore :: int
  level :: int
  activePieces :: "piece option list"
  storage :: "int option"
  modalHidden :: bool
  finalScore :: "int option"

text \<open>\<^verbatim>\<open>this.pxPerLine\<close> is set to 100 by the constructor and never written again.\<close>

definition pxPerLine :: int where
  "pxPerLine = 100"

text \<open>
  Reading \<^verbatim>\<open>xs[i]\<close> in JavaScript: past the end the result is \<^verbatim>\<open>undefined\<close>, here
  \<open>None\<close>.
\<close>

definition js_index :: "'a list \<Rightarrow> nat \<Rightarrow> 'a option" where
  "js_index xs i = (if i < length xs then Some (xs ! i) else None)"

text \<open>
  The board is 8 by 8 from the constructor on, and every operation below keeps it so.
  A matrix is rectangular when all rows are as long as row 0.
\<close>

definition wf_board :: "board \<Rightarrow> bool" where
  "wf_board g = (length g = GRID_SIZE \<and> list_all (\<lambda>row. length row = GRID_SIZE) g)"

definition rectangular :: "matrix \<Rightarrow> bool" where
  "rectangular m = list_all (\<lambda>row. length row = length (m ! 0)) m"

text \<open>Cell \<open>(r, c)\<close> of a shape matrix is occupied when it exists and holds 1.\<close>

definition occupied :: "matrix \<Rightarrow> nat \<Rightarrow> nat \<Rightarrow> bool" where
  "occupied m r c = (r < length m \<and> c < length (m ! r) \<and> m ! r ! c = 1)"

subsection \<open>\<^verbatim>\<open>isValidPlacement\<close>\<close>

text \<open>
  The inner loop over \<open>c\<close> for one row \<open>r\<close>: \<open>False\<close> is the early \<^verbatim>\<open>return false\<close>,
  \<open>True\<close> means the loop ran to its end.
\<close>

fun placement_cols :: "board \<Rightarrow> int \<Rightarrow> int \<Rightarrow> matrix \<Rightarrow> nat \<Rightarrow> nat list \<Rightarrow> bool" where
  "placement_cols g startCol startRow m r [] = True"
| "placement_cols g startCol startRow m r (c # cs) =
     (if js_index (m ! r) c = Some 1 then
        (let targetR = startRow + int r; targetC = startCol + int c in
         if targetR < 0 \<or> targetR \<ge> int GRID_SIZE \<or> targetC < 0 \<or> targetC \<ge> int GRID_SIZE
         then False
         else if g ! nat targetR ! nat targetC \<noteq> None then False
         else placement_cols g startCol startRow m r cs)
      else placement_cols g startCol startRow m r cs)"

fun placement_rows :: "board \<Rightarrow> int \<Rightarrow> int \<Rightarrow> matrix \<Rightarrow> nat list \<Rightarrow> bool" where
  "placement_rows g startCol startRow m [] = True"
| "placement_rows g startCol startRow m (r # rs) =
     (if placement_cols g startCol startRow m r [0..<length (m ! 0)]
      then placement_rows g startCol startRow m rs
      else False)"

definition isValidPlacement :: "game \<Rightarrow> int \<Rightarrow> int \<Rightarrow> piece option \<Rightarrow> bool" where
  "isValidPlacement s startCol startRow p =
     (case p of
        None \<Rightarrow> False
      | Some pc \<Rightarrow> placement_rows (grid s) startCol startRow (shape pc) [0..<length (shape pc)])"


subsection \<open>\<^verbatim>\<open>updateScore\<close>, \<^verbatim>\<open>updateLevel\<close>, \<^verbatim>\<open>triggerGameOver\<close>\<close>

definition updateLevel :: "int \<Rightarrow> game \<Rightarrow> game" where
  "updateLevel lvl s = s\<lparr>level := lvl\<rparr>"

text \<open>
  \<^verbatim>\<open>updateScore(newScore)\<close>: the argument is the new score, not a difference. The level
  check is a single \<^verbatim>\<open>if\<close>.
\<close>

definition updateScore :: "int \<Rightarrow> game \<Rightarrow> game" where
  "updateScore newScore s =
     (let s1 = s\<lparr>score := newScore\<rparr>;
          s2 = (if score s1 > highScore s1
                then s1\<lparr>highScore := score s1, storage := Some (score s1)\<rparr>
                else s1);
          requiredScore = level s2 * 500
      in if score s2 \<ge> requiredScore then updateLevel (level s2 + 1) s2 else s2)"

definition triggerGameOver :: "game \<Rightarrow> game" where
  "triggerGameOver s = s\<lparr>finalScore := Some (score s), modalHidden := False\<rparr>"

subsection \<open>\<^verbatim>\<open>checkGameOver\<close>\<close>

text \<open>
  The three nested loops with their \<^verbatim>\<open>break\<close>s. Each function returns the value of
  \<^verbatim>\<open>canPlaceAny\<close> when its loop is left: \<open>True\<close> is the \<^verbatim>\<open>break\<close> after a hit.
\<close>

fun search_cols :: "game \<Rightarrow> piece \<Rightarrow> nat \<Rightarrow> nat list \<Rightarrow> bool" where
  "search_cols s pc r [] = False"
| "search_cols s pc r (c # cs) =
     (if isValidPlacement s (int c) (int r) (Some pc) then True else search_cols s pc r cs)"

fun search_rows :: "game \<Rightarrow> piece \<Rightarrow> nat list \<Rightarrow> bool" where
  "search_rows s pc [] = False"
| "search_rows s pc (r # rs) =
     (if search_cols s pc r [0..<GRID_SIZE] then True else search_rows s pc rs)"

fun search_pieces :: "game \<Rightarrow> piece option list \<Rightarrow> bool" where
  "search_pieces s [] = False"
| "search_pieces s (None # ps) = search_pieces s ps"
| "search_pieces s (Some pc # ps) =
     (if search_rows s pc [0..<GRID_SIZE] then True else search_pieces s ps)"

definition checkGameOver :: "game \<Rightarrow> game" where
  "checkGameOver s =
     (let canPlaceAny = search_pieces s (activePieces s)
      in if \<not> canPlaceAny \<and> list_ex (\<lambda>p. p \<noteq> None) (activePieces s)
         then triggerGameOver s else s)"

subsection \<open>\<^verbatim>\<open>checkForLines\<close> and \<^verbatim>\<open>clearLines\<close>\<close>

text \<open>
  \<^verbatim>\<open>grid[r][c] = v\<close>. Every write of the source is at indices inside the 8 by 8 board:
  \<^verbatim>\<open>placePiece\<close> runs only after \<^verbatim>\<open>isValidPlacement\<close>, \<^verbatim>\<open>clearLines\<close> gets indices
  below \<^verbatim>\<open>GRID_SIZE\<close>.
\<close>

definition set_cell :: "'a list list \<Rightarrow> nat \<Rightarrow> nat \<Rightarrow> 'a \<Rightarrow> 'a list list" where
  "set_cell g r c v = g[r := (g ! r)[c := v]]"

text \<open>The inner loop of the column check: \<open>False\<close> is \<^verbatim>\<open>full = false; break\<close>.\<close>

fun col_full :: "board \<Rightarrow> nat \<Rightarrow> nat list \<Rightarrow> bool" where
  "col_full g c [] = True"
| "col_full g c (r # rs) = (if g ! r ! c = None then False else col_full g c rs)"

definition rowsToClear :: "board \<Rightarrow> nat list" where
  "rowsToClear g = filter (\<lambda>r. list_all (\<lambda>cell. cell \<noteq> None) (g ! r)) [0..<GRID_SIZE]"

definition colsToClear :: "board \<Rightarrow> nat list" where
  "colsToClear g = filter (\<lambda>c. col_full g c [0..<GRID_SIZE]) [0..<GRID_SIZE]"

text \<open>
  \<^verbatim>\<open>cellsToClear\<close> is a JavaScript \<^verbatim>\<open>Set\<close>: \<^verbatim>\<open>add\<close> ignores an element already
  present and \<^verbatim>\<open>forEach\<close> visits the elements in insertion order, so the set is a list
  without repetition. The source's keys are the strings \<^verbatim>\<open>`${r},${c}`\<close>, read back by
  \<^verbatim>\<open>split(',').map(Number)\<close>; here a key is the pair \<open>(r, c)\<close> itself.
\<close>

definition set_add :: "'a \<Rightarrow> 'a list \<Rightarrow> 'a list" where
  "set_add x xs = (if x \<in> set xs then xs else xs @ [x])"

definition cellsToClear :: "nat list \<Rightarrow> nat list \<Rightarrow> (nat \<times> nat) list" where
  "cellsToClear rows cols =
     (let cells1 = fold (\<lambda>r acc. fold (\<lambda>c acc. set_add (r, c) acc) [0..<GRID_SIZE] acc) rows [];
          cells2 = fold (\<lambda>c acc. fold (\<lambda>r acc. set_add (r, c) acc) [0..<GRID_SIZE] acc) cols cells1
      in cells2)"

text \<open>
  The multiplier is computed in exact rational arithmetic; every value that occurs
  (at most 16 lines, halves only) is exact in JavaScript's doubles as well. \<^verbatim>\<open>Math.round\<close>
  rounds halves up, as \<^const>\<open>round\<close> does.
\<close>

definition multiplier :: "nat \<Rightarrow> rat" where
  "multiplier lineCount =
     (let m0 = 1;
          m1 = (if lineCount = 2 then 3 / 2 else m0);
          m2 = (if lineCount = 3 then 2 else m1);
          m3 = (if lineCount \<ge> 4 then 3 else m2)
      in m3)"

definition points :: "nat \<Rightarrow> int" where
  "points lineCount = round ((of_nat lineCount * of_int pxPerLine) * multiplier lineCount)"

definition clearLines :: "nat list \<Rightarrow> nat list \<Rightarrow> game \<Rightarrow> game" where
  "clearLines rows cols s =
     (let g = fold (\<lambda>(r, c) g. set_cell g r c None) (cellsToClear rows cols) (grid s);
          lineCount = length rows + length cols
      in updateScore (score s + points lineCount) (s\<lparr>grid := g\<rparr>))"

definition checkForLines :: "game \<Rightarrow> game" where
  "checkForLines s =
     (let rows = rowsToClear (grid s); cols = colsToClear (grid s)
      in if length rows > 0 \<or> length cols > 0 then clearLines rows cols s else s)"

subsection \<open>\<^verbatim>\<open>placePiece\<close>, \<^verbatim>\<open>tryPlacePiece\<close> and the \<^verbatim>\<open>onUp\<close> handler\<close>

fun place_cols :: "board \<Rightarrow> int \<Rightarrow> int \<Rightarrow> piece \<Rightarrow> nat \<Rightarrow> nat list \<Rightarrow> board" where
  "place_cols g col row pc r [] = g"
| "place_cols g col row pc r (c # cs) =
     (if js_index (shape pc ! r) c = Some 1
      then place_cols (set_cell g (nat (row + int r)) (nat (col + int c)) (Some (color pc)))
             col row pc r cs
      else place_cols g col row pc r cs)"

fun place_rows :: "board \<Rightarrow> int \<Rightarrow> int \<Rightarrow> piece \<Rightarrow> nat list \<Rightarrow> board" where
  "place_rows g col row pc [] = g"
| "place_rows g col row pc (r # rs) =
     place_rows (place_cols g col row pc r [0..<length (shape pc ! 0)]) col row pc rs"

definition placePiece :: "int \<Rightarrow> int \<Rightarrow> piece \<Rightarrow> game \<Rightarrow> game" where
  "placePiece col row pc s =
     checkForLines (s\<lparr>grid := place_rows (grid s) col row pc [0..<length (shape pc)]\<rparr>)"

text \<open>
  \<^verbatim>\<open>tryPlacePiece\<close> gets the anchor from the screen position of the dragged visual;
  here the rounded anchor \<open>(col, row)\<close> is the input. The result is the flag \<^verbatim>\<open>placed\<close>
  with the new state.
\<close>

definition tryPlacePiece :: "piece option \<Rightarrow> int \<Rightarrow> int \<Rightarrow> game \<Rightarrow> bool \<times> game" where
  "tryPlacePiece p col row s =
     (if isValidPlacement s col row p
      then (case p of None \<Rightarrow> (False, s) | Some pc \<Rightarrow> (True, placePiece col row pc s))
      else (False, s))"

subsection \<open>\<^verbatim>\<open>generateRandomPiece\<close> and \<^verbatim>\<open>spawnPieces\<close>\<close>

definition SMALL_BLOCKS :: "matrix list" where
  "SMALL_BLOCKS = [
     [[1]],
     [[1, 1]],
     [[1], [1]]]"

definition TETROMINOES :: "matrix list" where
  "TETROMINOES = [
     [[1, 1, 1, 1]],
     [[1], [1], [1], [1]],
     [[1, 1], [1, 1]],
     [[0, 1, 0], [1, 1, 1]],
     [[1, 0], [1, 1], [1, 0]],
     [[0, 1, 1], [1, 1, 0]],
     [[1, 1, 0], [0, 1, 1]],
     [[1, 0, 0], [1, 1, 1]],
     [[0, 0, 1], [1, 1, 1]],
     [[1, 1], [1, 0], [1, 0]],
     [[1, 1], [0, 1], [0, 1]]]"

definition COMPLEX_SHAPES :: "matrix list" where
  "COMPLEX_SHAPES = [
     [[1, 1, 1], [1, 1, 1]],
     [[1, 1, 1], [1, 0, 1]],
     [[1, 0, 0], [1, 0, 0], [1, 1, 1]],
     [[0, 0, 1], [0, 0, 1], [1, 1, 1]]]"

text \<open>
  JavaScript numbers are binary64 values, here the rationals they denote. A product is
  the exact product rounded to the nearest binary64 value, ties to the even significand.
  \<open>rne\<close> rounds to the nearest integer, ties to even; \<open>log2_floor x\<close> is the exponent
  \<open>e\<close> with \<open>2 ^ e \<le> x < 2 ^ (e + 1)\<close>, from the bit lengths of numerator and
  denominator; \<open>binary64\<close> rounds to 53 significant bits, or to a multiple of
  \<open>2 ^ -1074\<close> in the subnormal range. Overflow to infinity is left out: every product
  below is smaller than 16.
\<close>

definition rne :: "rat \<Rightarrow> int" where
  "rne y =
     (let f = \<lfloor>y\<rfloor>; r = y - of_int f
      in if r < 1 / 2 then f else if 1 / 2 < r then f + 1 else if even f then f else f + 1)"

definition log2_floor :: "rat \<Rightarrow> int" where
  "log2_floor x =
     (case quotient_of x of (p, q) \<Rightarrow>
        (let k = bitlen p - bitlen q in if 2 powi k \<le> x then k else k - 1))"

definition binary64 :: "rat \<Rightarrow> rat" where
  "binary64 x =
     (if x = 0 then 0
      else
        (let e = max (log2_floor \<bar>x\<bar>) (- 1022);
             u = 2 powi (e - 52)
         in sgn x * of_int (rne (\<bar>x\<bar> / u)) * u))"

text \<open>
  The three calls of \<^verbatim>\<open>Math.random()\<close> of one \<^verbatim>\<open>generateRandomPiece\<close>, in the order
  they are made: the pool draw, the shape draw, the color draw. A draw is a binary64
  value in \<open>[0, 1)\<close>. The literals 0.4, 0.2 and 0.8 are the binary64 values just above
  2/5, 1/5 and 4/5, and a draw is below the literal exactly when it is below the fraction
  (lemma \<open>shapesPool_literals\<close>), so the comparisons are written with the fractions.
\<close>

definition is_draw :: "rat \<Rightarrow> bool" where
  "is_draw d = (0 \<le> d \<and> d < 1 \<and> binary64 d = d)"

type_synonym draws = "rat \<times> rat \<times> rat"

definition shapesPool :: "int \<Rightarrow> rat \<Rightarrow> matrix list" where
  "shapesPool lvl d =
     (if lvl < 3 then
        (if d < 4 / 10 then SMALL_BLOCKS else TETROMINOES)
      else
        (let rand = d in
         if rand < 2 / 10 then SMALL_BLOCKS
         else if rand < 8 / 10 then TETROMINOES
         else COMPLEX_SHAPES))"

definition generateRandomPiece :: "game \<Rightarrow> draws \<Rightarrow> piece" where
  "generateRandomPiece s ds =
     (case ds of (d1, d2, d3) \<Rightarrow>
        (let pool = shapesPool (level s) d1;
             sh = pool ! nat \<lfloor>binary64 (d2 * of_nat (length pool))\<rfloor>;
             col = COLORS ! nat \<lfloor>binary64 (d3 * of_nat (length COLORS))\<rfloor>
         in \<lparr>shape = sh, color = col\<rparr>))"

definition spawnPieces :: "draws \<times> draws \<times> draws \<Rightarrow> game \<Rightarrow> game" where
  "spawnPieces td s =
     (case td of (ds1, ds2, ds3) \<Rightarrow>
        checkGameOver (s\<lparr>activePieces :=
          [Some (generateRandomPiece s ds1),
           Some (generateRandomPiece s ds2),
           Some (generateRandomPiece s ds3)]\<rparr>))"

text \<open>
  \<^verbatim>\<open>onUp\<close> for a drag that started on tray slot \<open>idx\<close> and ended at anchor \<open>(col, row)\<close>;
  \<open>td\<close> are the draws used if the tray is refilled. \<^verbatim>\<open>draggedPiece.data\<close> is the object
  in the slot (an index past the tray reads \<^verbatim>\<open>undefined\<close>, which \<^verbatim>\<open>isValidPlacement\<close>
  rejects like \<^verbatim>\<open>null\<close>).
\<close>

definition onUp :: "nat \<Rightarrow> int \<Rightarrow> int \<Rightarrow> draws \<times> draws \<times> draws \<Rightarrow> game \<Rightarrow> game" where
  "onUp idx col row td s =
     (let data = (case js_index (activePieces s) idx of None \<Rightarrow> None | Some p \<Rightarrow> p)
      in case tryPlacePiece data col row s of
           (True, s1) \<Rightarrow>
             (let s2 = s1\<lparr>activePieces := (activePieces s1)[idx := None]\<rparr>
              in if list_all (\<lambda>p. p = None) (activePieces s2)
                 then spawnPieces td s2
                 else checkGameOver s2)
         | (False, s1) \<Rightarrow> s1)"

subsection \<open>\<^verbatim>\<open>rotateMatrix\<close> and \<^verbatim>\<open>rotateAllPieces\<close>\<close>

text \<open>The two loops; \<open>nm\<close> is \<^verbatim>\<open>newMatrix\<close>, written cell by cell.\<close>

fun rotate_cols :: "bool \<Rightarrow> matrix \<Rightarrow> nat \<Rightarrow> nat \<Rightarrow> nat \<Rightarrow> matrix \<Rightarrow> nat list \<Rightarrow> matrix" where
  "rotate_cols clockwise m rows cols r nm [] = nm"
| "rotate_cols clockwise m rows cols r nm (c # cs) =
     rotate_cols clockwise m rows cols r
       (if clockwise then set_cell nm c (rows - 1 - r) (m ! r ! c)
        else set_cell nm (cols - 1 - c) r (m ! r ! c))
       cs"

fun rotate_rows :: "bool \<Rightarrow> matrix \<Rightarrow> nat \<Rightarrow> nat \<Rightarrow> matrix \<Rightarrow> nat list \<Rightarrow> matrix" where
  "rotate_rows clockwise m rows cols nm [] = nm"
| "rotate_rows clockwise m rows cols nm (r # rs) =
     rotate_rows clockwise m rows cols
       (rotate_cols clockwise m rows cols r nm [0..<cols]) rs"

text \<open>
  \<^verbatim>\<open>matrix[0].length\<close> raises a TypeError on an empty matrix: the result is \<open>None\<close>.
  The matrices of the game are rectangular (the literals of the pools, and the results
  of this function), so every \<^verbatim>\<open>matrix[r][c]\<close> read by the loops exists.
\<close>

definition rotateMatrix :: "matrix \<Rightarrow> bool \<Rightarrow> matrix option" where
  "rotateMatrix m clockwise =
     (if m = [] then None
      else
        (let rows = length m;
             cols = length (m ! 0);
             newRows = cols;
             newCols = rows;
             newMatrix = replicate newRows (replicate newCols 0)
         in Some (rotate_rows clockwise m rows cols newMatrix [0..<rows])))"

text \<open>
  The \<^verbatim>\<open>forEach\<close> of \<^verbatim>\<open>rotateAllPieces\<close> over the tray; a TypeError of \<^verbatim>\<open>rotateMatrix\<close>
  leaves the handler, so the whole result is \<open>None\<close>.
\<close>

fun rotate_tray :: "bool \<Rightarrow> piece option list \<Rightarrow> piece option list option" where
  "rotate_tray clockwise [] = Some []"
| "rotate_tray clockwise (None # ps) = map_option ((#) None) (rotate_tray clockwise ps)"
| "rotate_tray clockwise (Some pc # ps) =
     (case rotateMatrix (shape pc) clockwise of
        None \<Rightarrow> None
      | Some m \<Rightarrow> map_option ((#) (Some (pc\<lparr>shape := m\<rparr>))) (rotate_tray clockwise ps))"

definition rotateAllPieces :: "bool \<Rightarrow> game \<Rightarrow> game option" where
  "rotateAllPieces clockwise s =
     (case rotate_tray clockwise (activePieces s) of
        None \<Rightarrow> None
      | Some ps \<Rightarrow> Some (checkGameOver (s\<lparr>activePieces := ps\<rparr>)))"

subsection \<open>The constructor, \<^verbatim>\<open>init\<close> and \<^verbatim>\<open>restartGame\<close>\<close>

definition empty_grid :: board where
  "empty_grid = replicate GRID_SIZE (replicate GRID_SIZE None)"

text \<open>
  \<^verbatim>\<open>new Game()\<close>: the constructor sets the fields and calls \<^verbatim>\<open>init\<close>. \<open>stored\<close> is what
  \<^verbatim>\<open>localStorage\<close> holds under the high-score key and \<open>hidden\<close> whether the page's modal
  starts hidden (the page is not part of the script).
\<close>

definition init :: "draws \<times> draws \<times> draws \<Rightarrow> game \<Rightarrow> game" where
  "init td s = spawnPieces td (updateLevel 1 (updateScore 0 s))"

definition new_Game :: "int option \<Rightarrow> bool \<Rightarrow> draws \<times> draws \<times> draws \<Rightarrow> game" where
  "new_Game stored hidden td =
     init td
       \<lparr>grid = empty_grid, score = 0,
        highScore = (case stored of None \<Rightarrow> 0 | Some h \<Rightarrow> h),
        level = 1, activePieces = [], storage = stored,
        modalHidden = hidden, finalScore = None\<rparr>"

text \<open>\<^verbatim>\<open>restartGame\<close> (its write to the unused field \<^verbatim>\<open>bag\<close> is left out).\<close>

definition restartGame :: "draws \<times> draws \<times> draws \<Rightarrow> game \<Rightarrow> game" where
  "restartGame td s =
     (let s1 = s\<lparr>grid := empty_grid, score := 0, level := 1, activePieces := []\<rparr>;
          s2 = updateScore 0 s1;
          s3 = updateLevel 1 s2;
          s4 = s3\<lparr>modalHidden := True\<rparr>
      in spawnPieces td s4)"

subsection \<open>The states of a session\<close>

text \<open>\<^verbatim>\<open>Math.random()\<close> returns a number in \<open>[0, 1)\<close>.\<close>

definition valid_draws :: "draws \<Rightarrow> bool" where
  "valid_draws ds =
     (case ds of (d1, d2, d3) \<Rightarrow> 0 \<le> d1 \<and> d1 < 1 \<and> 0 \<le> d2 \<and> d2 < 1 \<and> 0 \<le> d3 \<and> d3 < 1)"

definition valid_tray_draws :: "draws \<times> draws \<times> draws \<Rightarrow> bool" where
  "valid_tray_draws td =
     (case td of (ds1, ds2, ds3) \<Rightarrow> valid_draws ds1 \<and> valid_draws ds2 \<and> valid_draws ds3)"

text \<open>
  The states the page can be in: after construction, and after each handled event
  (restart button, rotate buttons, end of a drag).
\<close>

inductive reachable :: "game \<Rightarrow> bool" where
  reach_new: "valid_tray_draws td \<Longrightarrow> reachable (new_Game stored hidden td)"
| reach_restart: "reachable s \<Longrightarrow> valid_tray_draws td \<Longrightarrow> reachable (restartGame td s)"
| reach_onUp: "reachable s \<Longrightarrow> valid_tray_draws td \<Longrightarrow> reachable (onUp idx col row td s)"
| reach_rotate: "reachable s \<Longrightarrow> rotateAllPieces clockwise s = Some s' \<Longrightarrow> reachable s'"

text \<open>
  The same events with every draw a binary64 value, as \<^verbatim>\<open>Math.random()\<close> returns
  them: the states of \<open>session\<close> are among those of \<open>reachable\<close> (lemma
  \<open>session_reachable\<close>).
\<close>

definition double_draws :: "draws \<Rightarrow> bool" where
  "double_draws ds = (case ds of (d1, d2, d3) \<Rightarrow> is_draw d1 \<and> is_draw d2 \<and> is_draw d3)"

definition double_tray_draws :: "draws \<times> draws \<times> draws \<Rightarrow> bool" where
  "double_tray_draws td =
     (case td of (ds1, ds2, ds3) \<Rightarrow> double_draws ds1 \<and> double_draws ds2 \<and> double_draws ds3)"

inductive session :: "game \<Rightarrow> bool" where
  session_new: "double_tray_draws td \<Longrightarrow> session (new_Game stored hidden td)"
| session_restart: "session s \<Longrightarrow> double_tray_draws td \<Longrightarrow> session (restartGame td s)"
| session_onUp: "session s \<Longrightarrow> double_tray_draws td \<Longrightarrow> session (onUp idx col row td s)"
| session_rotate: "session s \<Longrightarrow> rotateAllPieces clockwise s = Some s' \<Longrightarrow> session s'"

subsection \<open>Notions used to state the properties\<close>

text \<open>What one cell of the piece needs at an anchor: a target on the board, on an empty cell.\<close>

definition cell_fits :: "board \<Rightarrow> int \<Rightarrow> int \<Rightarrow> nat \<Rightarrow> nat \<Rightarrow> bool" where
  "cell_fits g startCol startRow r c =
     (0 \<le> startRow + int r \<and> startRow + int r < int GRID_SIZE \<and>
      0 \<le> startCol + int c \<and> startCol + int c < int GRID_SIZE \<and>
      g ! nat (startRow + int r) ! nat (startCol + int c) = None)"

text \<open>The level has caught up with the score no further than the score allows.\<close>

definition settled :: "game \<Rightarrow> bool" where
  "settled s = ((level s - 1) * 500 \<le> score s \<and> 1 \<le> level s)"

text \<open>
  A row or column of the board is full when each of its 8 cells is occupied; the line
  count of a board is the number of full rows plus the number of full columns.
\<close>

definition full_row :: "board \<Rightarrow> nat \<Rightarrow> bool" where
  "full_row g r = list_all (\<lambda>c. g ! r ! c \<noteq> None) [0..<GRID_SIZE]"

definition full_col :: "board \<Rightarrow> nat \<Rightarrow> bool" where
  "full_col g c = list_all (\<lambda>r. g ! r ! c \<noteq> None) [0..<GRID_SIZE]"

definition lineCount :: "board \<Rightarrow> nat" where
  "lineCount g =
     length (filter (full_row g) [0..<GRID_SIZE]) + length (filter (full_col g) [0..<GRID_SIZE])"

text \<open>The multiplier table as the specification words it, for at least one line.\<close>

definition spec_multiplier :: "nat \<Rightarrow> rat" where
  "spec_multiplier n = (if n = 1 then 1 else if n = 2 then 3 / 2 else if n = 3 then 2 else 3)"

text \<open>The board right after the cells of a piece are written, before any clearing.\<close>

definition placed_board :: "game \<Rightarrow> int \<Rightarrow> int \<Rightarrow> piece \<Rightarrow> board" where
  "placed_board s col row pc = place_rows (grid s) col row pc [0..<length (shape pc)]"

text \<open>A matrix of \<open>rows\<close> rows, each of \<open>cols\<close> cells.\<close>

definition dims :: "'a list list \<Rightarrow> nat \<Rightarrow> nat \<Rightarrow> bool" where
  "dims m rows cols = (length m = rows \<and> list_all (\<lambda>row. length row = cols) m)"

text \<open>Four rotations in the same direction, one after the other.\<close>

definition rotate4 :: "bool \<Rightarrow> matrix \<Rightarrow> matrix option" where
  "rotate4 cw m =
     Option.bind (Option.bind (Option.bind (rotateMatrix m cw) (\<lambda>a. rotateMatrix a cw))
       (\<lambda>b. rotateMatrix b cw)) (\<lambda>c. rotateMatrix c cw)"

text \<open>
  The shapes of the game are rectangular with at least one row and one column; a state
  is well formed when its board is 8 by 8 and every tray piece has such a shape. Every
  state of a session is well formed (lemma \<open>session_wf_game\<close>), so the reads and
  writes of the model stay inside the arrays, as they do in the source.
\<close>

definition wf_shape :: "matrix \<Rightarrow> bool" where
  "wf_shape m = (m \<noteq> [] \<and> m ! 0 \<noteq> [] \<and> rectangular m)"

definition wf_tray :: "piece option list \<Rightarrow> bool" where
  "wf_tray ps = list_all (\<lambda>p. case p of None \<Rightarrow> True | Some pc \<Rightarrow> wf_shape (shape pc)) ps"

definition wf_game :: "game \<Rightarrow> bool" where
  "wf_game s = (wf_board (grid s) \<and> wf_tray (activePieces s))"

subsection \<open>Concrete inputs\<close>

definition blank_game :: game where
  "blank_game =
     \<lparr>grid = empty_grid, score = 0, highScore = 0, level = 1, activePieces = [],
      storage = None, modalHidden = True, finalScore = None\<rparr>"

definition domino :: piece where
  "domino = \<lparr>shape = [[1, 1]], color = ''#FF5733''\<rparr>"

text \<open>
  A board on which the horizontal I piece at anchor \<open>(0, 0)\<close> completes row 0 and
  columns 0 to 3 at once: five lines in one placement.
\<close>

definition bar4 :: piece where
  "bar4 = \<lparr>shape = [[1, 1, 1, 1]], color = ''#33FF57''\<rparr>"

definition combo_grid :: board where
  "combo_grid =
     (let x = Some ''#3357FF'' in
      [None, None, None, None, x, x, x, x] #
      replicate 7 [x, x, x, x, None, None, None, None])"

definition combo_game :: game where
  "combo_game = blank_game\<lparr>grid := combo_grid, activePieces := [Some bar4, Some domino, None]\<rparr>"

definition no_draws :: "draws \<times> draws \<times> draws" where
  "no_draws = ((0, 0, 0), (0, 0, 0), (0, 0, 0))"

text \<open>
  A board on which the vertical domino at anchor \<open>(0, 0)\<close> completes rows 0 and 1 and
  column 0; the cell \<open>(5, 3)\<close> lies on none of them.
\<close>

definition vdomino :: piece where
  "vdomino = \<lparr>shape = [[1], [1]], color = ''#F333FF''\<rparr>"

definition scenario_c_grid :: board where
  "scenario_c_grid =
     (let x = Some ''#33FFF5'' in
      [[None, x, x, x, x, x, x, x],
       [None, x, x, x, x, x, x, x],
       [x, None, None, None, None, None, None, None],
       [x, None, None, None, None, None, None, None],
       [x, None, None, None, None, None, None, None],
       [x, None, None, x, None, None, None, None],
       [x, None, None, None, None, None, None, None],
       [x, None, None, None, None, None, None, None]])"

definition scenario_c_game :: game where
  "scenario_c_game =
     blank_game\<lparr>grid := scenario_c_grid, activePieces := [Some vdomino, None, None]\<rparr>"

text \<open>
  A board whose only empty cells are the eight cells of the diagonal, with one domino
  left in the tray: the domino fits nowhere.
\<close>

definition stuck_grid :: board where
  "stuck_grid =
     (let x = Some ''#FFD133'' in
      [[None, x, x, x, x, x, x, x],
       [x, None, x, x, x, x, x, x],
       [x, x, None, x, x, x, x, x],
       [x, x, x, None, x, x, x, x],
       [x, x, x, x, None, x, x, x],
       [x, x, x, x, x, None, x, x],
       [x, x, x, x, x, x, None, x],
       [x, x, x, x, x, x, x, None]])"

definition stuck_game :: game where
  "stuck_game = blank_game\<lparr>grid := stuck_grid, activePieces := [None, Some domino, None]\<rparr>"

text \<open>The T tetromino of the pool, and a tray holding it.\<close>

definition t_shape :: matrix where
  "t_shape = [[0, 1, 0], [1, 1, 1]]"

definition t_piece :: piece where
  "t_piece = \<lparr>shape = t_shape, color = ''#3357FF''\<rparr>"

definition tray_game :: game where
  "tray_game = blank_game\<lparr>activePieces := [Some t_piece, None, Some domino]\<rparr>"


section \<open>Placement validation\<close>

lemma placement_cols_iff:
  "placement_cols g startCol startRow m r cs \<longleftrightarrow>
     (\<forall>c \<in> set cs. js_index (m ! r) c = Some 1 \<longrightarrow> cell_fits g startCol startRow r c)"
  by (induction cs) (auto simp: cell_fits_def Let_def)

lemma placement_rows_iff:
  "placement_rows g startCol startRow m rs \<longleftrightarrow>
     (\<forall>r \<in> set rs. \<forall>c < length (m ! 0).
        js_index (m ! r) c = Some 1 \<longrightarrow> cell_fits g startCol startRow r c)"
  by (induction rs) (auto simp: placement_cols_iff)

lemma rectangular_row_length:
  "rectangular m \<Longrightarrow> r < length m \<Longrightarrow> length (m ! r) = length (m ! 0)"
  by (simp add: rectangular_def list_all_length)

lemma occupied_rectangular:
  "rectangular m \<Longrightarrow>
   occupied m r c \<longleftrightarrow> r < length m \<and> c < length (m ! 0) \<and> js_index (m ! r) c = Some 1"
  by (auto simp: occupied_def js_index_def rectangular_row_length)

text \<open>
  C1. For a rectangular shape matrix on an 8 by 8 board and any integer anchor,
  \<open>isValidPlacement\<close> is true exactly when every occupied cell \<open>(r, c)\<close> of the shape has
  its target \<open>(startRow + r, startCol + c)\<close> inside \<open>[0, 8)\<close> on both axes and on an empty
  board cell; a null piece is never valid.
\<close>

theorem isValidPlacement_iff:
  assumes "wf_board (grid s)" and "rectangular (shape pc)"
  shows "(isValidPlacement s startCol startRow (Some pc) \<longleftrightarrow>
            (\<forall>r c. occupied (shape pc) r c \<longrightarrow>
               0 \<le> startRow + int r \<and> startRow + int r < 8 \<and>
               0 \<le> startCol + int c \<and> startCol + int c < 8 \<and>
               grid s ! nat (startRow + int r) ! nat (startCol + int c) = None))
         \<and> \<not> isValidPlacement s startCol startRow None"
proof -
  have "isValidPlacement s startCol startRow (Some pc) \<longleftrightarrow>
          (\<forall>r c. occupied (shape pc) r c \<longrightarrow> cell_fits (grid s) startCol startRow r c)"
    using assms(2) by (auto simp: isValidPlacement_def placement_rows_iff occupied_rectangular)
  then show ?thesis
    by (simp add: cell_fits_def GRID_SIZE_def isValidPlacement_def)
qed

lemma wf_board_empty_grid: "wf_board empty_grid"
  by (simp add: wf_board_def empty_grid_def list_all_length)

theorem isValidPlacement_iff_witness:
  "wf_board (grid blank_game) \<and> rectangular (shape domino) \<and>
   isValidPlacement blank_game 6 0 (Some domino) \<and>
   \<not> isValidPlacement blank_game 6 0 None"
proof -
  have w: "wf_board (grid blank_game)"
    by (simp add: blank_game_def wf_board_empty_grid)
  have r: "rectangular (shape domino)"
    by (simp add: domino_def rectangular_def)
  have "\<forall>r c. occupied (shape domino) r c \<longrightarrow>
          0 \<le> 0 + int r \<and> 0 + int r < 8 \<and> 0 \<le> 6 + int c \<and> 6 + int c < 8 \<and>
          grid blank_game ! nat (0 + int r) ! nat (6 + int c) = None"
    by (auto simp: occupied_def domino_def blank_game_def empty_grid_def GRID_SIZE_def
        less_Suc_eq nth_Cons')
  with isValidPlacement_iff [OF w r, of 6 0] w r show ?thesis
    by blast
qed

section \<open>Score, level and high score\<close>

lemma score_updateScore: "score (updateScore n s) = n"
  by (simp add: updateScore_def updateLevel_def Let_def)

lemma level_updateScore:
  "level (updateScore n s) = (if n \<ge> level s * 500 then level s + 1 else level s)"
  by (simp add: updateScore_def updateLevel_def Let_def)

lemma highScore_updateScore: "highScore (updateScore n s) = max (highScore s) n"
  by (simp add: updateScore_def updateLevel_def Let_def)

lemma grid_updateScore: "grid (updateScore n s) = grid s"
  by (simp add: updateScore_def updateLevel_def Let_def)

lemma activePieces_updateScore: "activePieces (updateScore n s) = activePieces s"
  by (simp add: updateScore_def updateLevel_def Let_def)

lemma round_scaled_nat: "round (of_int k * rat_of_nat n) = k * int n"
proof -
  have "of_int k * rat_of_nat n = (of_int (k * int n) :: rat)"
    by simp
  then show ?thesis
    by (simp only: round_of_int)
qed

lemma points_eq:
  "points n = (if n = 2 then 300 else if n = 3 then 600 else if n \<ge> 4 then 300 * int n
               else 100 * int n)"
  using round_scaled_nat [of 300 n] round_scaled_nat [of 100 n]
  by (simp add: points_def multiplier_def pxPerLine_def mult.commute)

lemma points_nonneg: "0 \<le> points n"
  by (simp add: points_eq)

lemma checkGameOver_fields:
  "score (checkGameOver s) = score s" "level (checkGameOver s) = level s"
  "highScore (checkGameOver s) = highScore s" "grid (checkGameOver s) = grid s"
  "activePieces (checkGameOver s) = activePieces s"
  by (simp_all add: checkGameOver_def triggerGameOver_def Let_def)

lemma clearLines_fields:
  "score (clearLines rows cols s) = score s + points (length rows + length cols)"
  "level (clearLines rows cols s) =
     (if score s + points (length rows + length cols) \<ge> level s * 500
      then level s + 1 else level s)"
  "highScore (clearLines rows cols s) =
     max (highScore s) (score s + points (length rows + length cols))"
  "activePieces (clearLines rows cols s) = activePieces s"
  by (simp_all add: clearLines_def Let_def score_updateScore level_updateScore
      highScore_updateScore activePieces_updateScore)

lemma checkForLines_mono:
  "score s \<le> score (checkForLines s)" "level s \<le> level (checkForLines s)"
  "highScore s \<le> highScore (checkForLines s)"
  "activePieces (checkForLines s) = activePieces s"
  using points_nonneg [of "length (rowsToClear (grid s)) + length (colsToClear (grid s))"]
  by (simp_all add: checkForLines_def Let_def clearLines_fields)

lemma checkForLines_settled: "settled s \<Longrightarrow> settled (checkForLines s)"
  using points_nonneg [of "length (rowsToClear (grid s)) + length (colsToClear (grid s))"]
  by (auto simp: checkForLines_def Let_def clearLines_fields settled_def algebra_simps)

lemma placePiece_mono:
  "score s \<le> score (placePiece col row pc s)" "level s \<le> level (placePiece col row pc s)"
  "highScore s \<le> highScore (placePiece col row pc s)"
  "activePieces (placePiece col row pc s) = activePieces s"
  using checkForLines_mono [of "s\<lparr>grid := place_rows (grid s) col row pc [0..<length (shape pc)]\<rparr>"]
  by (simp_all add: placePiece_def)

lemma placePiece_settled: "settled s \<Longrightarrow> settled (placePiece col row pc s)"
  unfolding placePiece_def by (rule checkForLines_settled) (simp add: settled_def)

lemma spawnPieces_fields:
  "score (spawnPieces td s) = score s" "level (spawnPieces td s) = level s"
  "highScore (spawnPieces td s) = highScore s" "grid (spawnPieces td s) = grid s"
  by (simp_all add: spawnPieces_def checkGameOver_fields split: prod.splits)

lemma tryPlacePiece_mono:
  "score s \<le> score (snd (tryPlacePiece p col row s))"
  "level s \<le> level (snd (tryPlacePiece p col row s))"
  "highScore s \<le> highScore (snd (tryPlacePiece p col row s))"
  by (simp_all add: tryPlacePiece_def placePiece_mono split: option.splits)

lemma tryPlacePiece_settled: "settled s \<Longrightarrow> settled (snd (tryPlacePiece p col row s))"
  by (simp add: tryPlacePiece_def placePiece_settled split: option.splits)

lemma onUp_eq:
  "onUp idx col row td s =
     (let s1 = snd (tryPlacePiece (case js_index (activePieces s) idx of None \<Rightarrow> None | Some p \<Rightarrow> p) col row s)
      in if fst (tryPlacePiece (case js_index (activePieces s) idx of None \<Rightarrow> None | Some p \<Rightarrow> p) col row s)
         then (let s2 = s1\<lparr>activePieces := (activePieces s1)[idx := None]\<rparr>
               in if list_all (\<lambda>p. p = None) (activePieces s2) then spawnPieces td s2
                  else checkGameOver s2)
         else s1)"
  by (simp add: onUp_def Let_def split: prod.splits bool.splits)

lemma onUp_mono:
  "score s \<le> score (onUp idx col row td s)" "level s \<le> level (onUp idx col row td s)"
  "highScore s \<le> highScore (onUp idx col row td s)"
  by (simp_all add: onUp_eq Let_def spawnPieces_fields checkGameOver_fields tryPlacePiece_mono)

lemma onUp_settled: "settled s \<Longrightarrow> settled (onUp idx col row td s)"
  using tryPlacePiece_settled [of s "case js_index (activePieces s) idx of None \<Rightarrow> None | Some p \<Rightarrow> p" col row]
  by (simp add: onUp_eq Let_def settled_def spawnPieces_fields checkGameOver_fields)

lemma rotateAllPieces_fields:
  "rotateAllPieces cw s = Some s' \<Longrightarrow>
     score s' = score s \<and> level s' = level s \<and> highScore s' = highScore s \<and> grid s' = grid s"
  by (auto simp: rotateAllPieces_def checkGameOver_fields split: option.splits)

lemma restartGame_fields:
  "score (restartGame td s) = 0" "level (restartGame td s) = 1"
  "highScore (restartGame td s) = max (highScore s) 0" "grid (restartGame td s) = empty_grid"
  by (simp_all add: restartGame_def Let_def spawnPieces_fields updateLevel_def
      score_updateScore highScore_updateScore grid_updateScore)

lemma new_Game_fields:
  "score (new_Game stored hidden td) = 0" "level (new_Game stored hidden td) = 1"
  "highScore (new_Game stored hidden td) = max (case stored of None \<Rightarrow> 0 | Some h \<Rightarrow> h) 0"
  "grid (new_Game stored hidden td) = empty_grid"
  by (simp_all add: new_Game_def init_def spawnPieces_fields updateLevel_def
      score_updateScore highScore_updateScore grid_updateScore)

lemma reachable_settled: "reachable s \<Longrightarrow> settled s"
proof (induction rule: reachable.induct)
  case (reach_new stored hidden td)
  show ?case by (simp add: settled_def new_Game_fields)
next
  case (reach_restart s td)
  show ?case by (simp add: settled_def restartGame_fields)
next
  case (reach_onUp s idx col row td)
  then show ?case by (simp add: onUp_settled)
next
  case (reach_rotate s clockwise s')
  then show ?case using rotateAllPieces_fields [of clockwise s s'] by (simp add: settled_def)
qed

lemma checkForLines_below_highScore:
  "score s \<le> highScore s \<Longrightarrow> score (checkForLines s) \<le> highScore (checkForLines s)"
  by (simp add: checkForLines_def Let_def clearLines_fields)

lemma onUp_below_highScore:
  assumes "score s \<le> highScore s"
  shows "score (onUp idx col row td s) \<le> highScore (onUp idx col row td s)"
proof -
  have "score (snd (tryPlacePiece p col row s)) \<le> highScore (snd (tryPlacePiece p col row s))"
    for p
    using assms
    by (auto simp: tryPlacePiece_def placePiece_def intro!: checkForLines_below_highScore
        split: option.splits)
  then show ?thesis
    by (simp add: onUp_eq Let_def spawnPieces_fields checkGameOver_fields)
qed

lemma reachable_score_le_highScore: "reachable s \<Longrightarrow> score s \<le> highScore s"
proof (induction rule: reachable.induct)
  case (reach_new stored hidden td)
  show ?case by (simp add: new_Game_fields)
next
  case (reach_restart s td)
  show ?case by (simp add: restartGame_fields)
next
  case (reach_onUp s idx col row td)
  then show ?case by (simp add: onUp_below_highScore)
next
  case (reach_rotate s clockwise s')
  then show ?case using rotateAllPieces_fields [of clockwise s s'] by simp
qed

text \<open>
  C2, as stated: after one call of the score update, \<open>score < level * 500\<close>, also when
  the award crosses two thresholds. The source checks the threshold once per call. On
  \<open>combo_game\<close> (score 0, level 1) the horizontal I piece at \<open>(0, 0)\<close> is a valid
  placement that clears five lines for 1500 points; the call leaves level 2, and
  \<open>1500 < 2 * 500\<close> is false.
\<close>

theorem updateScore_loop_counterexample:
  "isValidPlacement combo_game 0 0 (Some bar4) \<and>
   score combo_game = 0 \<and> level combo_game = 1 \<and>
   score (placePiece 0 0 bar4 combo_game) = 1500 \<and>
   level (placePiece 0 0 bar4 combo_game) = 2 \<and>
   \<not> score (placePiece 0 0 bar4 combo_game) < level (placePiece 0 0 bar4 combo_game) * 500 \<and>
   \<not> score (updateScore 1500 blank_game) < level (updateScore 1500 blank_game) * 500"
  by code_simp

text \<open>
  C2, amended: one call of \<open>updateScore\<close> raises the level by exactly one when the new
  score is at least \<open>level * 500\<close> and leaves it unchanged otherwise; so
  \<open>score < level * 500\<close> holds after the call whenever the new score is below
  \<open>(level + 1) * 500\<close> for the level before the call, that is when at most one
  threshold is crossed.
\<close>

theorem updateScore_single_step:
  "level (updateScore newScore s) = (if newScore \<ge> level s * 500 then level s + 1 else level s) \<and>
   score (updateScore newScore s) = newScore \<and>
   (newScore < (level s + 1) * 500 \<longrightarrow>
      score (updateScore newScore s) < level (updateScore newScore s) * 500)"
  by (simp add: score_updateScore level_updateScore)

theorem updateScore_single_step_witness:
  "(600::int) < (level blank_game + 1) * 500 \<and>
   level (updateScore 600 blank_game) = 2 \<and>
   score (updateScore 600 blank_game) < level (updateScore 600 blank_game) * 500"
proof -
  have h: "(600::int) < (level blank_game + 1) * 500"
    by (simp add: blank_game_def)
  have l: "level blank_game = 1"
    by (simp add: blank_game_def)
  from updateScore_single_step [of 600 blank_game] h l show ?thesis
    by simp
qed

text \<open>
  C3. In every state of a session the score is at least \<open>(level - 1) * 500\<close> and the
  level at least 1 (a session starts, and restarts, at score 0 and level 1). Handling
  the end of a drag, the only event that calls \<open>updateScore\<close> with a new score, lowers
  neither score nor level and keeps the bound; rotation changes neither; and the call
  \<open>updateScore (score + points)\<close> that \<open>clearLines\<close> makes, on the state with the
  board \<open>g\<close> it has just cleared, lowers neither and keeps the bound.
\<close>

theorem score_level_monotone:
  assumes "reachable s"
  shows "(level s - 1) * 500 \<le> score s \<and> 1 \<le> level s \<and>
         score s \<le> score (onUp idx col row td s) \<and>
         level s \<le> level (onUp idx col row td s) \<and>
         (level (onUp idx col row td s) - 1) * 500 \<le> score (onUp idx col row td s) \<and>
         (\<forall>s'. rotateAllPieces clockwise s = Some s' \<longrightarrow>
            score s' = score s \<and> level s' = level s) \<and>
         score s \<le> score (updateScore (score s + points n) (s\<lparr>grid := g\<rparr>)) \<and>
         level s \<le> level (updateScore (score s + points n) (s\<lparr>grid := g\<rparr>)) \<and>
         (level (updateScore (score s + points n) (s\<lparr>grid := g\<rparr>)) - 1) * 500
            \<le> score (updateScore (score s + points n) (s\<lparr>grid := g\<rparr>))"
proof -
  have st: "settled s"
    using assms by (rule reachable_settled)
  have st': "settled (onUp idx col row td s)"
    using st by (rule onUp_settled)
  have rot: "\<forall>s'. rotateAllPieces clockwise s = Some s' \<longrightarrow>
      score s' = score s \<and> level s' = level s"
    using rotateAllPieces_fields [of clockwise s] by blast
  have up: "score s \<le> score (updateScore (score s + points n) (s\<lparr>grid := g\<rparr>)) \<and>
         level s \<le> level (updateScore (score s + points n) (s\<lparr>grid := g\<rparr>)) \<and>
         (level (updateScore (score s + points n) (s\<lparr>grid := g\<rparr>)) - 1) * 500
            \<le> score (updateScore (score s + points n) (s\<lparr>grid := g\<rparr>))"
    using st points_nonneg [of n]
    by (auto simp: score_updateScore level_updateScore settled_def)
  show ?thesis
    using st st' rot up onUp_mono(1,2) [of s idx col row td]
    by (simp add: settled_def)
qed

theorem score_level_monotone_witness:
  "reachable (new_Game None True no_draws) \<and>
   score (new_Game None True no_draws) = 0 \<and> level (new_Game None True no_draws) = 1 \<and>
   (level (new_Game None True no_draws) - 1) * 500 \<le> score (new_Game None True no_draws) \<and>
   score (new_Game None True no_draws)
     \<le> score (updateScore (score (new_Game None True no_draws) + points 5)
                ((new_Game None True no_draws)\<lparr>grid := empty_grid\<rparr>))"
proof -
  have v: "valid_tray_draws no_draws"
    by (simp add: valid_tray_draws_def valid_draws_def no_draws_def)
  have r: "reachable (new_Game None True no_draws)"
    using v by (rule reach_new)
  from score_level_monotone [OF r, of 0 0 0 no_draws True 5 empty_grid] r show ?thesis
    by (simp add: new_Game_fields)
qed

text \<open>
  C10. After \<open>updateScore\<close> the high score is the maximum of the previous high score
  and the new score, so it is at least the score, and the storage entry is rewritten
  exactly when the new score exceeds the previous high score; and no operation of the
  engine, restart included, lowers the high score.
\<close>

theorem highScore_monotone:
  "highScore (updateScore newScore s) = max (highScore s) newScore \<and>
   score (updateScore newScore s) \<le> highScore (updateScore newScore s) \<and>
   highScore s \<le> highScore (updateScore newScore s) \<and>
   storage (updateScore newScore s) =
     (if highScore s < newScore then Some newScore else storage s) \<and>
   highScore s \<le> highScore (updateLevel lvl s) \<and>
   highScore s \<le> highScore (triggerGameOver s) \<and>
   highScore s \<le> highScore (checkGameOver s) \<and>
   highScore s \<le> highScore (clearLines rows cols s) \<and>
   highScore s \<le> highScore (checkForLines s) \<and>
   highScore s \<le> highScore (placePiece col row pc s) \<and>
   highScore s \<le> highScore (snd (tryPlacePiece p col row s)) \<and>
   highScore s \<le> highScore (spawnPieces td s) \<and>
   highScore s \<le> highScore (onUp idx col row td s) \<and>
   highScore s \<le> highScore (init td s) \<and>
   highScore s \<le> highScore (restartGame td s) \<and>
   (case rotateAllPieces clockwise s of None \<Rightarrow> True | Some s' \<Rightarrow> highScore s \<le> highScore s')"
proof -
  have rot: "case rotateAllPieces clockwise s of None \<Rightarrow> True | Some s' \<Rightarrow> highScore s \<le> highScore s'"
  proof (cases "rotateAllPieces clockwise s")
    case None
    then show ?thesis by simp
  next
    case (Some s')
    then show ?thesis using rotateAllPieces_fields [of clockwise s s'] by simp
  qed
  have u1: "highScore (updateScore newScore s) = max (highScore s) newScore"
    by (rule highScore_updateScore)
  have u2: "score (updateScore newScore s) \<le> highScore (updateScore newScore s)"
    by (simp only: highScore_updateScore score_updateScore max.cobounded2)
  have u3: "highScore s \<le> highScore (updateScore newScore s)"
    by (simp only: highScore_updateScore max.cobounded1)
  have u4: "storage (updateScore newScore s) =
      (if highScore s < newScore then Some newScore else storage s)"
    by (simp add: updateScore_def updateLevel_def Let_def)
  have l: "highScore s \<le> highScore (updateLevel lvl s)"
    by (simp add: updateLevel_def)
  have t: "highScore s \<le> highScore (triggerGameOver s)"
    by (simp add: triggerGameOver_def)
  have c: "highScore s \<le> highScore (checkGameOver s)"
    by (simp add: checkGameOver_fields)
  have cl: "highScore s \<le> highScore (clearLines rows cols s)"
    by (simp only: clearLines_fields max.cobounded1)
  have sp: "highScore s \<le> highScore (spawnPieces td s)"
    by (simp add: spawnPieces_fields)
  have ini: "highScore s \<le> highScore (init td s)"
  proof -
    have "highScore (init td s) = highScore (updateScore 0 s)"
      by (simp add: init_def spawnPieces_fields updateLevel_def)
    then show ?thesis
      by (simp only: highScore_updateScore max.cobounded1)
  qed
  have re: "highScore s \<le> highScore (restartGame td s)"
    by (simp only: restartGame_fields max.cobounded1)
  show ?thesis
    by (intro conjI u1 u2 u3 u4 l t c cl checkForLines_mono(3) placePiece_mono(3)
        tryPlacePiece_mono(3) sp onUp_mono(3) ini re rot)
qed

section \<open>Line clearing and its points\<close>

subsection \<open>Writing cells\<close>

lemma length_set_cell: "length (set_cell g r c v) = length g"
  by (simp add: set_cell_def)

lemma nth_set_cell:
  "r' < length g \<Longrightarrow>
   set_cell g r c v ! r' ! c' =
     (if r' = r \<and> c' = c \<and> c < length (g ! r) then v else g ! r' ! c')"
  by (cases "r' = r"; cases "c' = c"; cases "c < length (g ! r)")
    (simp_all add: set_cell_def list_update_beyond)

lemma wf_board_set_cell: "wf_board g \<Longrightarrow> wf_board (set_cell g r c v)"
  by (cases "r < length g")
    (auto simp: wf_board_def set_cell_def list_all_length nth_list_update list_update_beyond)

lemma wf_board_nth_length: "wf_board g \<Longrightarrow> r < GRID_SIZE \<Longrightarrow> length (g ! r) = GRID_SIZE"
  by (simp add: wf_board_def list_all_length)

lemma wf_board_length: "wf_board g \<Longrightarrow> length g = GRID_SIZE"
  by (simp add: wf_board_def)

lemma wf_board_fold_clear:
  "wf_board g \<Longrightarrow> wf_board (fold (\<lambda>(r, c) g. set_cell g r c None) cells g)"
  by (induction cells arbitrary: g) (auto simp: wf_board_set_cell)

lemma nth_fold_clear:
  assumes "wf_board g" and "r < GRID_SIZE" and "c < GRID_SIZE"
    and "\<forall>(r', c') \<in> set cells. r' < GRID_SIZE \<and> c' < GRID_SIZE"
  shows "fold (\<lambda>(r, c) g. set_cell g r c None) cells g ! r ! c =
           (if (r, c) \<in> set cells then None else g ! r ! c)"
  using assms
proof (induction cells arbitrary: g)
  case Nil
  then show ?case by simp
next
  case (Cons x cells)
  obtain r' c' where x: "x = (r', c')" by (cases x)
  have wf': "wf_board (set_cell g r' c' None)"
    using Cons.prems(1) by (rule wf_board_set_cell)
  have step: "set_cell g r' c' None ! r ! c = (if r = r' \<and> c = c' then None else g ! r ! c)"
    using Cons.prems x
    by (simp add: nth_set_cell wf_board_length wf_board_nth_length)
  have "fold (\<lambda>(r, c) g. set_cell g r c None) cells (set_cell g r' c' None) ! r ! c =
          (if (r, c) \<in> set cells then None else set_cell g r' c' None ! r ! c)"
    using Cons.IH [OF wf' Cons.prems(2,3)] Cons.prems(4) by simp
  then show ?case
    using x step by auto
qed

subsection \<open>The set of cells to clear\<close>

lemma set_set_add: "set (set_add x xs) = insert x (set xs)"
  by (auto simp: set_add_def)

lemma distinct_set_add: "distinct xs \<Longrightarrow> distinct (set_add x xs)"
  by (simp add: set_add_def)

lemma set_fold_add_row:
  "set (fold (\<lambda>c acc. set_add (r, c) acc) cs acc) = set acc \<union> {(r, c) | c. c \<in> set cs}"
  by (induction cs arbitrary: acc) (auto simp: set_set_add)

lemma set_fold_add_col:
  "set (fold (\<lambda>r acc. set_add (r, c) acc) rs acc) = set acc \<union> {(r, c) | r. r \<in> set rs}"
  by (induction rs arbitrary: acc) (auto simp: set_set_add)

lemma distinct_fold_add_row:
  "distinct acc \<Longrightarrow> distinct (fold (\<lambda>c acc. set_add (r, c) acc) cs acc)"
  by (induction cs arbitrary: acc) (auto simp: distinct_set_add)

lemma distinct_fold_add_col:
  "distinct acc \<Longrightarrow> distinct (fold (\<lambda>r acc. set_add (r, c) acc) rs acc)"
  by (induction rs arbitrary: acc) (auto simp: distinct_set_add)

lemma set_fold_rows:
  "set (fold (\<lambda>r acc. fold (\<lambda>c acc. set_add (r, c) acc) cs acc) rows acc) =
     set acc \<union> {(r, c) | r c. r \<in> set rows \<and> c \<in> set cs}"
  by (induction rows arbitrary: acc) (auto simp: set_fold_add_row)

lemma set_fold_cols:
  "set (fold (\<lambda>c acc. fold (\<lambda>r acc. set_add (r, c) acc) rs acc) cols acc) =
     set acc \<union> {(r, c) | r c. c \<in> set cols \<and> r \<in> set rs}"
  by (induction cols arbitrary: acc) (auto simp: set_fold_add_col)

lemma distinct_fold_rows:
  "distinct acc \<Longrightarrow>
   distinct (fold (\<lambda>r acc. fold (\<lambda>c acc. set_add (r, c) acc) cs acc) rows acc)"
  by (induction rows arbitrary: acc) (auto simp: distinct_fold_add_row)

lemma distinct_fold_cols:
  "distinct acc \<Longrightarrow>
   distinct (fold (\<lambda>c acc. fold (\<lambda>r acc. set_add (r, c) acc) rs acc) cols acc)"
  by (induction cols arbitrary: acc) (auto simp: distinct_fold_add_col)

lemma set_cellsToClear:
  "set (cellsToClear rows cols) =
     {(r, c). (r \<in> set rows \<and> c < GRID_SIZE) \<or> (c \<in> set cols \<and> r < GRID_SIZE)}"
  by (auto simp: cellsToClear_def set_fold_rows set_fold_cols)

lemma distinct_cellsToClear: "distinct (cellsToClear rows cols)"
  by (simp add: cellsToClear_def distinct_fold_rows distinct_fold_cols)

subsection \<open>Full rows and columns\<close>

lemma col_full_iff: "col_full g c rs \<longleftrightarrow> list_all (\<lambda>r. g ! r ! c \<noteq> None) rs"
  by (induction rs) auto

lemma colsToClear_eq: "colsToClear g = filter (full_col g) [0..<GRID_SIZE]"
  by (simp add: colsToClear_def full_col_def [abs_def] col_full_iff del: not_None_eq)

lemma row_every_iff:
  "length row = n \<Longrightarrow> list_all (\<lambda>cell. cell \<noteq> None) row \<longleftrightarrow> list_all (\<lambda>c. row ! c \<noteq> None) [0..<n]"
  by (auto simp: list_all_length)

lemma rowsToClear_eq: "wf_board g \<Longrightarrow> rowsToClear g = filter (full_row g) [0..<GRID_SIZE]"
  unfolding rowsToClear_def full_row_def
  by (rule filter_cong) (simp_all add: row_every_iff wf_board_nth_length del: not_None_eq)

lemma wf_board_place_cols: "wf_board g \<Longrightarrow> wf_board (place_cols g col row pc r cs)"
  by (induction cs arbitrary: g) (auto simp: wf_board_set_cell)

lemma wf_board_place_rows: "wf_board g \<Longrightarrow> wf_board (place_rows g col row pc rs)"
  by (induction rs arbitrary: g) (auto simp: wf_board_place_cols)

lemma wf_board_placed_board: "wf_board (grid s) \<Longrightarrow> wf_board (placed_board s col row pc)"
  by (simp add: placed_board_def wf_board_place_rows)

lemma grid_clearLines:
  "grid (clearLines rows cols s) =
     fold (\<lambda>(r, c) g. set_cell g r c None) (cellsToClear rows cols) (grid s)"
  by (simp add: clearLines_def Let_def grid_updateScore)

lemma cells_in_range:
  "set rows \<subseteq> {0..<GRID_SIZE} \<Longrightarrow> set cols \<subseteq> {0..<GRID_SIZE} \<Longrightarrow>
   \<forall>(r', c') \<in> set (cellsToClear rows cols). r' < GRID_SIZE \<and> c' < GRID_SIZE"
  by (auto simp: set_cellsToClear)

lemma rowsToClear_range: "set (rowsToClear g) \<subseteq> {0..<GRID_SIZE}"
  by (auto simp: rowsToClear_def)

lemma colsToClear_range: "set (colsToClear g) \<subseteq> {0..<GRID_SIZE}"
  by (auto simp: colsToClear_def)

lemma mem_rowsToClear:
  "wf_board g \<Longrightarrow> r \<in> set (rowsToClear g) \<longleftrightarrow> r < GRID_SIZE \<and> full_row g r"
  by (auto simp: rowsToClear_eq)

lemma mem_colsToClear: "c \<in> set (colsToClear g) \<longleftrightarrow> c < GRID_SIZE \<and> full_col g c"
  by (auto simp: colsToClear_eq)

lemma nth_grid_checkForLines:
  assumes "wf_board (grid s)" and "r < GRID_SIZE" and "c < GRID_SIZE"
  shows "grid (checkForLines s) ! r ! c =
           (if full_row (grid s) r \<or> full_col (grid s) c then None else grid s ! r ! c)"
proof (cases "rowsToClear (grid s) = [] \<and> colsToClear (grid s) = []")
  case True
  then have "r \<notin> set (rowsToClear (grid s))" and "c \<notin> set (colsToClear (grid s))"
    by simp_all
  then have "\<not> full_row (grid s) r" and "\<not> full_col (grid s) c"
    using assms by (simp_all add: mem_rowsToClear mem_colsToClear)
  then show ?thesis
    using True by (simp add: checkForLines_def)
next
  case False
  then have "grid (checkForLines s) =
      fold (\<lambda>(r, c) g. set_cell g r c None)
        (cellsToClear (rowsToClear (grid s)) (colsToClear (grid s))) (grid s)"
    by (auto simp: checkForLines_def Let_def grid_clearLines)
  then have "grid (checkForLines s) ! r ! c =
      (if (r, c) \<in> set (cellsToClear (rowsToClear (grid s)) (colsToClear (grid s)))
       then None else grid s ! r ! c)"
    using nth_fold_clear [OF assms cells_in_range [OF rowsToClear_range colsToClear_range]]
    by simp
  then show ?thesis
    using assms by (simp add: set_cellsToClear mem_rowsToClear mem_colsToClear)
qed

lemma wf_board_checkForLines: "wf_board (grid s) \<Longrightarrow> wf_board (grid (checkForLines s))"
  by (simp add: checkForLines_def Let_def grid_clearLines wf_board_fold_clear)

lemma checkForLines_no_lines:
  "rowsToClear (grid s) = [] \<Longrightarrow> colsToClear (grid s) = [] \<Longrightarrow> checkForLines s = s"
  by (simp add: checkForLines_def)

lemma placePiece_eq: "placePiece col row pc s = checkForLines (s\<lparr>grid := placed_board s col row pc\<rparr>)"
  by (simp add: placePiece_def placed_board_def)

lemma multiplier_spec: "0 < n \<Longrightarrow> multiplier n = spec_multiplier n"
  by (auto simp: multiplier_def spec_multiplier_def)

lemma points_spec:
  "0 < n \<Longrightarrow> points n = round (of_nat n * 100 * spec_multiplier n)"
  by (simp add: points_def pxPerLine_def multiplier_spec)

lemma lineCount_placed:
  "wf_board g \<Longrightarrow> length (rowsToClear g) + length (colsToClear g) = lineCount g"
  by (simp add: lineCount_def rowsToClear_eq colsToClear_eq)

lemma score_checkForLines:
  "score (checkForLines s) =
     (if 0 < length (rowsToClear (grid s)) + length (colsToClear (grid s))
      then score s + points (length (rowsToClear (grid s)) + length (colsToClear (grid s)))
      else score s)"
  by (auto simp: checkForLines_def Let_def clearLines_fields)

text \<open>
  C6. On an 8 by 8 board, after \<open>placePiece\<close> every cell that lies on a full row or
  a full column of the board as it stood right after the placement is empty, and every
  other cell is as the placement left it. The cells to clear form a list without
  repetition (a cell on a cleared row and a cleared column occurs once) whose elements
  are exactly the cells of that union. With no full row and no full column the state is
  the state after the placement, nothing else changed.
\<close>

theorem clear_union_of_full_lines:
  assumes "wf_board (grid s)"
  shows "(\<forall>r < GRID_SIZE. \<forall>c < GRID_SIZE.
            grid (placePiece col row pc s) ! r ! c =
              (if full_row (placed_board s col row pc) r \<or> full_col (placed_board s col row pc) c
               then None else placed_board s col row pc ! r ! c)) \<and>
         wf_board (grid (placePiece col row pc s)) \<and>
         distinct (cellsToClear (rowsToClear (placed_board s col row pc))
                     (colsToClear (placed_board s col row pc))) \<and>
         set (cellsToClear (rowsToClear (placed_board s col row pc))
                (colsToClear (placed_board s col row pc))) =
           {(r, c). r < GRID_SIZE \<and> c < GRID_SIZE \<and>
                    (full_row (placed_board s col row pc) r \<or>
                     full_col (placed_board s col row pc) c)} \<and>
         ((\<forall>r < GRID_SIZE. \<not> full_row (placed_board s col row pc) r) \<and>
          (\<forall>c < GRID_SIZE. \<not> full_col (placed_board s col row pc) c) \<longrightarrow>
            placePiece col row pc s = s\<lparr>grid := placed_board s col row pc\<rparr>)"
proof -
  let ?g = "placed_board s col row pc"
  have wf: "wf_board ?g"
    using assms by (rule wf_board_placed_board)
  have cells: "\<forall>r < GRID_SIZE. \<forall>c < GRID_SIZE.
      grid (placePiece col row pc s) ! r ! c =
        (if full_row ?g r \<or> full_col ?g c then None else ?g ! r ! c)"
    using wf nth_grid_checkForLines [of "s\<lparr>grid := ?g\<rparr>"]
    by (simp add: placePiece_eq)
  have wf': "wf_board (grid (placePiece col row pc s))"
    using wf wf_board_checkForLines [of "s\<lparr>grid := ?g\<rparr>"] by (simp add: placePiece_eq)
  have st: "set (cellsToClear (rowsToClear ?g) (colsToClear ?g)) =
      {(r, c). r < GRID_SIZE \<and> c < GRID_SIZE \<and> (full_row ?g r \<or> full_col ?g c)}"
    using wf by (auto simp: set_cellsToClear mem_rowsToClear mem_colsToClear)
  have none: "placePiece col row pc s = s\<lparr>grid := ?g\<rparr>"
    if "\<forall>r < GRID_SIZE. \<not> full_row ?g r" and "\<forall>c < GRID_SIZE. \<not> full_col ?g c"
  proof -
    have "rowsToClear ?g = []"
      using that(1) wf by (simp add: rowsToClear_eq filter_empty_conv)
    moreover have "colsToClear ?g = []"
      using that(2) by (simp add: colsToClear_eq filter_empty_conv)
    ultimately show ?thesis
      by (simp add: placePiece_eq checkForLines_no_lines)
  qed
  show ?thesis
    using cells wf' st none distinct_cellsToClear by blast
qed

theorem clear_union_of_full_lines_witness:
  "wf_board (grid scenario_c_game) \<and>
   full_row (placed_board scenario_c_game 0 0 vdomino) 1 \<and>
   full_col (placed_board scenario_c_game 0 0 vdomino) 0 \<and>
   grid (placePiece 0 0 vdomino scenario_c_game) ! 1 ! 0 = None \<and>
   \<not> full_row (placed_board scenario_c_game 0 0 vdomino) 5 \<and>
   \<not> full_col (placed_board scenario_c_game 0 0 vdomino) 3 \<and>
   grid (placePiece 0 0 vdomino scenario_c_game) ! 5 ! 3 = Some ''#33FFF5'' \<and>
   length (cellsToClear (rowsToClear (placed_board scenario_c_game 0 0 vdomino))
             (colsToClear (placed_board scenario_c_game 0 0 vdomino))) = 22"
proof -
  have w: "wf_board (grid scenario_c_game)"
    by code_simp
  have f1: "full_row (placed_board scenario_c_game 0 0 vdomino) 1"
    by code_simp
  have f2: "full_col (placed_board scenario_c_game 0 0 vdomino) 0"
    by code_simp
  have n1: "\<not> full_row (placed_board scenario_c_game 0 0 vdomino) 5"
    by code_simp
  have n2: "\<not> full_col (placed_board scenario_c_game 0 0 vdomino) 3"
    by code_simp
  have p: "placed_board scenario_c_game 0 0 vdomino ! 5 ! 3 = Some ''#33FFF5''"
    by code_simp
  have l: "length (cellsToClear (rowsToClear (placed_board scenario_c_game 0 0 vdomino))
             (colsToClear (placed_board scenario_c_game 0 0 vdomino))) = 22"
    by code_simp
  have g: "(1::nat) < GRID_SIZE" "(0::nat) < GRID_SIZE" "(5::nat) < GRID_SIZE" "(3::nat) < GRID_SIZE"
    by (simp_all add: GRID_SIZE_def)
  from clear_union_of_full_lines [OF w, of 0 0 vdomino]
  have cells: "\<forall>r < GRID_SIZE. \<forall>c < GRID_SIZE.
      grid (placePiece 0 0 vdomino scenario_c_game) ! r ! c =
        (if full_row (placed_board scenario_c_game 0 0 vdomino) r \<or>
            full_col (placed_board scenario_c_game 0 0 vdomino) c
         then None else placed_board scenario_c_game 0 0 vdomino ! r ! c)"
    by blast
  have a: "grid (placePiece 0 0 vdomino scenario_c_game) ! 1 ! 0 = None"
    using cells g f1 by simp
  have b: "grid (placePiece 0 0 vdomino scenario_c_game) ! 5 ! 3 = Some ''#33FFF5''"
    using cells g n1 n2 p by simp
  from w f1 f2 a n1 n2 b l show ?thesis by blast
qed

text \<open>
  C4. With \<open>lineCount\<close> the number of full rows plus full columns of the board right
  after the placement: if it is positive the score grows by
  \<open>round (lineCount * 100 * multiplier)\<close>, the multiplier being 1, 3/2, 2 and 3 for
  1, 2, 3 and at least 4 lines; two rows and one column give 600 points; with no line
  the state is the state after the placement, the score update is not called.
\<close>

theorem line_clear_points:
  assumes "wf_board (grid s)"
  shows "(0 < lineCount (placed_board s col row pc) \<longrightarrow>
            score (placePiece col row pc s) =
              score s + round (of_nat (lineCount (placed_board s col row pc)) * 100 *
                               spec_multiplier (lineCount (placed_board s col row pc)))) \<and>
         (length (filter (full_row (placed_board s col row pc)) [0..<GRID_SIZE]) = 2 \<and>
          length (filter (full_col (placed_board s col row pc)) [0..<GRID_SIZE]) = 1 \<longrightarrow>
            score (placePiece col row pc s) = score s + 600) \<and>
         (lineCount (placed_board s col row pc) = 0 \<longrightarrow>
            placePiece col row pc s = s\<lparr>grid := placed_board s col row pc\<rparr>)"
proof -
  let ?g = "placed_board s col row pc"
  let ?n = "lineCount ?g"
  have wf: "wf_board ?g"
    using assms by (rule wf_board_placed_board)
  have n: "length (rowsToClear ?g) + length (colsToClear ?g) = ?n"
    using wf by (rule lineCount_placed)
  have sc: "score (placePiece col row pc s) = (if 0 < ?n then score s + points ?n else score s)"
    using n score_checkForLines [of "s\<lparr>grid := ?g\<rparr>"] by (simp add: placePiece_eq)
  have a: "0 < ?n \<longrightarrow>
      score (placePiece col row pc s) = score s + round (of_nat ?n * 100 * spec_multiplier ?n)"
    using sc by (simp add: points_spec)
  have b: "length (filter (full_row ?g) [0..<GRID_SIZE]) = 2 \<and>
      length (filter (full_col ?g) [0..<GRID_SIZE]) = 1 \<longrightarrow>
      score (placePiece col row pc s) = score s + 600"
  proof
    assume "length (filter (full_row ?g) [0..<GRID_SIZE]) = 2 \<and>
      length (filter (full_col ?g) [0..<GRID_SIZE]) = 1"
    then have "?n = 3"
      by (simp add: lineCount_def)
    then show "score (placePiece col row pc s) = score s + 600"
      using sc by (simp add: points_eq)
  qed
  have c: "?n = 0 \<longrightarrow> placePiece col row pc s = s\<lparr>grid := ?g\<rparr>"
  proof
    assume "?n = 0"
    then have "rowsToClear ?g = []" and "colsToClear ?g = []"
      using n by simp_all
    then show "placePiece col row pc s = s\<lparr>grid := ?g\<rparr>"
      by (simp add: placePiece_eq checkForLines_no_lines)
  qed
  from a b c show ?thesis by blast
qed

theorem line_clear_points_witness:
  "wf_board (grid scenario_c_game) \<and>
   isValidPlacement scenario_c_game 0 0 (Some vdomino) \<and>
   filter (full_row (placed_board scenario_c_game 0 0 vdomino)) [0..<GRID_SIZE] = [0, 1] \<and>
   filter (full_col (placed_board scenario_c_game 0 0 vdomino)) [0..<GRID_SIZE] = [0] \<and>
   score (placePiece 0 0 vdomino scenario_c_game) = score scenario_c_game + 600"
proof -
  have w: "wf_board (grid scenario_c_game)"
    by code_simp
  have v: "isValidPlacement scenario_c_game 0 0 (Some vdomino)"
    by code_simp
  have r: "filter (full_row (placed_board scenario_c_game 0 0 vdomino)) [0..<GRID_SIZE] = [0, 1]"
    by code_simp
  have c: "filter (full_col (placed_board scenario_c_game 0 0 vdomino)) [0..<GRID_SIZE] = [0]"
    by code_simp
  from line_clear_points [OF w, of 0 0 vdomino] r c
  have "score (placePiece 0 0 vdomino scenario_c_game) = score scenario_c_game + 600"
    by simp
  with w v r c show ?thesis by simp
qed

section \<open>The game-over check\<close>

lemma search_cols_iff:
  "search_cols s pc r cs \<longleftrightarrow> (\<exists>c \<in> set cs. isValidPlacement s (int c) (int r) (Some pc))"
  by (induction cs) auto

lemma search_rows_iff:
  "search_rows s pc rs \<longleftrightarrow>
     (\<exists>r \<in> set rs. \<exists>c < GRID_SIZE. isValidPlacement s (int c) (int r) (Some pc))"
  by (induction rs) (auto simp: search_cols_iff)

lemma search_pieces_iff:
  "search_pieces s ps \<longleftrightarrow>
     (\<exists>pc r c. Some pc \<in> set ps \<and> r < GRID_SIZE \<and> c < GRID_SIZE \<and>
        isValidPlacement s (int c) (int r) (Some pc))"
proof (induction ps)
  case Nil
  show ?case by simp
next
  case (Cons p ps)
  show ?case
  proof (cases p)
    case None
    then show ?thesis using Cons by simp
  next
    case (Some pc)
    have "search_pieces s (p # ps) \<longleftrightarrow>
            search_rows s pc [0..<GRID_SIZE] \<or> search_pieces s ps"
      using Some by simp
    also have "\<dots> \<longleftrightarrow>
        (\<exists>r < GRID_SIZE. \<exists>c < GRID_SIZE. isValidPlacement s (int c) (int r) (Some pc)) \<or>
        (\<exists>pc r c. Some pc \<in> set ps \<and> r < GRID_SIZE \<and> c < GRID_SIZE \<and>
           isValidPlacement s (int c) (int r) (Some pc))"
      by (auto simp: Cons search_rows_iff)
    also have "\<dots> \<longleftrightarrow>
        (\<exists>pc r c. Some pc \<in> set (p # ps) \<and> r < GRID_SIZE \<and> c < GRID_SIZE \<and>
           isValidPlacement s (int c) (int r) (Some pc))"
      using Some by auto
    finally show ?thesis .
  qed
qed

lemma list_ex_unused: "list_ex (\<lambda>p. p \<noteq> None) ps \<longleftrightarrow> (\<exists>pc. Some pc \<in> set ps)"
  by (auto simp: list_ex_iff)

text \<open>
  C5. \<open>checkGameOver\<close> makes the game-over transition (\<open>triggerGameOver\<close>) exactly
  when no unused piece of the tray is a valid placement at any of the 64 anchors and the
  tray holds at least one unused piece; otherwise it leaves the state as it is. Starting
  from a hidden modal, the modal is shown afterwards exactly in that case.
\<close>

theorem checkGameOver_iff:
  "checkGameOver s =
     (if (\<forall>pc r c. Some pc \<in> set (activePieces s) \<and> r < GRID_SIZE \<and> c < GRID_SIZE \<longrightarrow>
            \<not> isValidPlacement s (int c) (int r) (Some pc)) \<and>
         (\<exists>pc. Some pc \<in> set (activePieces s))
      then triggerGameOver s else s) \<and>
   (modalHidden s \<longrightarrow>
      (\<not> modalHidden (checkGameOver s) \<longleftrightarrow>
         (\<forall>pc r c. Some pc \<in> set (activePieces s) \<and> r < GRID_SIZE \<and> c < GRID_SIZE \<longrightarrow>
            \<not> isValidPlacement s (int c) (int r) (Some pc)) \<and>
         (\<exists>pc. Some pc \<in> set (activePieces s))))"
proof -
  have eq: "checkGameOver s =
     (if (\<forall>pc r c. Some pc \<in> set (activePieces s) \<and> r < GRID_SIZE \<and> c < GRID_SIZE \<longrightarrow>
            \<not> isValidPlacement s (int c) (int r) (Some pc)) \<and>
         (\<exists>pc. Some pc \<in> set (activePieces s))
      then triggerGameOver s else s)"
    unfolding checkGameOver_def Let_def search_pieces_iff list_ex_unused
    by (rule if_cong) auto
  show ?thesis
    by (rule conjI, rule eq, subst eq) (simp add: triggerGameOver_def)
qed

theorem checkGameOver_iff_witness:
  "modalHidden stuck_game \<and> \<not> modalHidden (checkGameOver stuck_game) \<and>
   \<not> isValidPlacement stuck_game 3 4 (Some domino) \<and>
   checkGameOver blank_game = blank_game"
proof -
  have h: "modalHidden stuck_game"
    by code_simp
  have g: "\<not> modalHidden (checkGameOver stuck_game)"
    by code_simp
  have m: "Some domino \<in> set (activePieces stuck_game)"
    by (simp add: stuck_game_def)
  have b: "(3::nat) < GRID_SIZE" "(4::nat) < GRID_SIZE"
    by (simp_all add: GRID_SIZE_def)
  from checkGameOver_iff [of stuck_game] h g
  have "\<forall>pc r c. Some pc \<in> set (activePieces stuck_game) \<and> r < GRID_SIZE \<and> c < GRID_SIZE \<longrightarrow>
            \<not> isValidPlacement stuck_game (int c) (int r) (Some pc)"
    by blast
  with m b have n: "\<not> isValidPlacement stuck_game (int 3) (int 4) (Some domino)"
    by blast
  have e: "checkGameOver blank_game = blank_game"
    using checkGameOver_iff [of blank_game] by (simp add: blank_game_def)
  from h g n e show ?thesis by simp
qed

section \<open>Rotation\<close>

lemma dims_set_cell: "dims nm a b \<Longrightarrow> dims (set_cell nm i j v) a b"
  by (cases "i < length nm")
    (auto simp: dims_def set_cell_def list_all_length nth_list_update list_update_beyond)

lemma dims_nth: "dims nm a b \<Longrightarrow> i < a \<Longrightarrow> length (nm ! i) = b"
  by (simp add: dims_def list_all_length)

lemma dims_length: "dims nm a b \<Longrightarrow> length nm = a"
  by (simp add: dims_def)

lemma dims_rotate_cols: "dims nm a b \<Longrightarrow> dims (rotate_cols cw m rows cols r nm cs) a b"
  by (induction cs arbitrary: nm) (auto simp: dims_set_cell)

lemma dims_rotate_rows: "dims nm a b \<Longrightarrow> dims (rotate_rows cw m rows cols nm rs) a b"
  by (induction rs arbitrary: nm) (auto simp: dims_rotate_cols)

lemma nth_set_cell_dims:
  "dims nm a b \<Longrightarrow> i < a \<Longrightarrow> j < b \<Longrightarrow> i' < a \<Longrightarrow>
   set_cell nm i j v ! i' ! j' = (if i' = i \<and> j' = j then v else nm ! i' ! j')"
  by (simp add: nth_set_cell dims_length dims_nth)

lemma rotate_cols_cw_nth:
  assumes "dims nm cols rows" and "r < rows" and "set cs \<subseteq> {0..<cols}"
    and "i < cols" and "j < rows"
  shows "rotate_cols True m rows cols r nm cs ! i ! j =
           (if i \<in> set cs \<and> j = rows - 1 - r then m ! r ! i else nm ! i ! j)"
  using assms(1,3)
proof (induction cs arbitrary: nm)
  case Nil
  then show ?case by simp
next
  case (Cons c cs)
  let ?nm = "set_cell nm c (rows - 1 - r) (m ! r ! c)"
  have c: "c < cols" and cs: "set cs \<subseteq> {0..<cols}"
    using Cons.prems(2) by simp_all
  have d: "dims ?nm cols rows"
    using Cons.prems(1) by (rule dims_set_cell)
  have "?nm ! i ! j = (if i = c \<and> j = rows - 1 - r then m ! r ! c else nm ! i ! j)"
    using Cons.prems(1) c assms(2,4) by (simp add: nth_set_cell_dims)
  then show ?case
    using Cons.IH [OF d cs] by auto
qed

lemma rotate_cols_ccw_nth:
  assumes "dims nm cols rows" and "r < rows" and "set cs \<subseteq> {0..<cols}"
    and "i < cols" and "j < rows"
  shows "rotate_cols False m rows cols r nm cs ! i ! j =
           (if cols - 1 - i \<in> set cs \<and> j = r then m ! r ! (cols - 1 - i) else nm ! i ! j)"
  using assms(1,3)
proof (induction cs arbitrary: nm)
  case Nil
  then show ?case by simp
next
  case (Cons c cs)
  let ?nm = "set_cell nm (cols - 1 - c) r (m ! r ! c)"
  have c: "c < cols" and cs: "set cs \<subseteq> {0..<cols}"
    using Cons.prems(2) by simp_all
  have d: "dims ?nm cols rows"
    using Cons.prems(1) by (rule dims_set_cell)
  have e: "i = cols - 1 - c \<longleftrightarrow> c = cols - 1 - i"
    using c assms(4) by arith
  have "?nm ! i ! j = (if i = cols - 1 - c \<and> j = r then m ! r ! c else nm ! i ! j)"
    using Cons.prems(1) c assms(2,4) by (simp add: nth_set_cell_dims)
  then show ?case
    using Cons.IH [OF d cs] e by auto
qed

lemma rotate_rows_cw_nth:
  assumes "dims nm cols rows" and "set rs \<subseteq> {0..<rows}" and "i < cols" and "j < rows"
  shows "rotate_rows True m rows cols nm rs ! i ! j =
           (if rows - 1 - j \<in> set rs then m ! (rows - 1 - j) ! i else nm ! i ! j)"
  using assms(1,2)
proof (induction rs arbitrary: nm)
  case Nil
  then show ?case by simp
next
  case (Cons r rs)
  let ?nm = "rotate_cols True m rows cols r nm [0..<cols]"
  have r: "r < rows" and rs: "set rs \<subseteq> {0..<rows}"
    using Cons.prems(2) by simp_all
  have d: "dims ?nm cols rows"
    using Cons.prems(1) by (rule dims_rotate_cols)
  have e: "j = rows - 1 - r \<longleftrightarrow> r = rows - 1 - j"
    using r assms(4) by arith
  have "?nm ! i ! j = (if j = rows - 1 - r then m ! r ! i else nm ! i ! j)"
    using rotate_cols_cw_nth [OF Cons.prems(1) r _ assms(3,4), where cs = "[0..<cols]"]
      assms(3)
    by simp
  then show ?case
    using Cons.IH [OF d rs] e by auto
qed

lemma rotate_rows_ccw_nth:
  assumes "dims nm cols rows" and "set rs \<subseteq> {0..<rows}" and "i < cols" and "j < rows"
  shows "rotate_rows False m rows cols nm rs ! i ! j =
           (if j \<in> set rs then m ! j ! (cols - 1 - i) else nm ! i ! j)"
  using assms(1,2)
proof (induction rs arbitrary: nm)
  case Nil
  then show ?case by simp
next
  case (Cons r rs)
  let ?nm = "rotate_cols False m rows cols r nm [0..<cols]"
  have r: "r < rows" and rs: "set rs \<subseteq> {0..<rows}"
    using Cons.prems(2) by simp_all
  have d: "dims ?nm cols rows"
    using Cons.prems(1) by (rule dims_rotate_cols)
  have "?nm ! i ! j = (if j = r then m ! r ! (cols - 1 - i) else nm ! i ! j)"
    using rotate_cols_ccw_nth [OF Cons.prems(1) r _ assms(3,4), where cs = "[0..<cols]"]
      assms(3)
    by simp
  then show ?case
    using Cons.IH [OF d rs] by auto
qed

lemma dims_replicate: "dims (replicate a (replicate b v)) a b"
  by (simp add: dims_def list_all_length)

lemma rotateMatrix_Some:
  "m \<noteq> [] \<Longrightarrow>
   rotateMatrix m cw =
     Some (rotate_rows cw m (length m) (length (m ! 0))
             (replicate (length (m ! 0)) (replicate (length m) 0)) [0..<length m])"
  by (simp add: rotateMatrix_def Let_def)

lemma rotateMatrix_dims:
  "rotateMatrix m cw = Some m' \<Longrightarrow> dims m' (length (m ! 0)) (length m)"
  by (cases "m = []") (auto simp: rotateMatrix_def Let_def intro!: dims_rotate_rows dims_replicate)

lemma rotateMatrix_cw_nth:
  assumes "rotateMatrix m True = Some m'" and "i < length (m ! 0)" and "j < length m"
  shows "m' ! i ! j = m ! (length m - 1 - j) ! i"
proof -
  let ?nm = "replicate (length (m ! 0)) (replicate (length m) (0::nat))"
  have ne: "m \<noteq> []"
    using assms(3) by auto
  have eq: "m' = rotate_rows True m (length m) (length (m ! 0)) ?nm [0..<length m]"
    using assms(1) rotateMatrix_Some [OF ne, of True] by simp
  have mem: "length m - 1 - j \<in> set [0..<length m]"
    using assms(3) by simp
  have "rotate_rows True m (length m) (length (m ! 0)) ?nm [0..<length m] ! i ! j =
          (if length m - 1 - j \<in> set [0..<length m] then m ! (length m - 1 - j) ! i
           else ?nm ! i ! j)"
    by (rule rotate_rows_cw_nth [OF dims_replicate _ assms(2,3)]) simp
  then show ?thesis
    using mem eq by (simp only: if_True)
qed

lemma rotateMatrix_ccw_nth:
  assumes "rotateMatrix m False = Some m'" and "i < length (m ! 0)" and "j < length m"
  shows "m' ! i ! j = m ! j ! (length (m ! 0) - 1 - i)"
proof -
  let ?nm = "replicate (length (m ! 0)) (replicate (length m) (0::nat))"
  have ne: "m \<noteq> []"
    using assms(3) by auto
  have eq: "m' = rotate_rows False m (length m) (length (m ! 0)) ?nm [0..<length m]"
    using assms(1) rotateMatrix_Some [OF ne, of False] by simp
  have mem: "j \<in> set [0..<length m]"
    using assms(3) by simp
  have "rotate_rows False m (length m) (length (m ! 0)) ?nm [0..<length m] ! i ! j =
          (if j \<in> set [0..<length m] then m ! j ! (length (m ! 0) - 1 - i)
           else ?nm ! i ! j)"
    by (rule rotate_rows_ccw_nth [OF dims_replicate _ assms(2,3)]) simp
  then show ?thesis
    using mem eq by (simp only: if_True)
qed

lemma rotate_tray_colors:
  "rotate_tray cw ps = Some ps' \<Longrightarrow> map (map_option color) ps' = map (map_option color) ps"
proof (induction ps arbitrary: ps')
  case Nil
  then show ?case by simp
next
  case (Cons p ps)
  then show ?case
    by (cases p) (auto split: option.splits)
qed

lemma rotate_tray_shapes:
  "rotate_tray cw ps = Some ps' \<Longrightarrow>
   map (map_option (\<lambda>pc. Some (shape pc))) ps' =
   map (map_option (\<lambda>pc. rotateMatrix (shape pc) cw)) ps"
proof (induction ps arbitrary: ps')
  case Nil
  then show ?case by simp
next
  case (Cons p ps)
  then show ?case
    by (cases p) (auto split: option.splits)
qed

lemma activePieces_rotateAllPieces:
  "rotateAllPieces cw s = Some s' \<Longrightarrow> rotate_tray cw (activePieces s) = Some (activePieces s')"
  by (auto simp: rotateAllPieces_def checkGameOver_fields split: option.splits)

text \<open>
  C7. For a rectangular matrix \<open>m\<close> of \<open>R \<ge> 1\<close> rows and \<open>C\<close> columns both rotations
  return a matrix of \<open>C\<close> rows and \<open>R\<close> columns; the clockwise one has the cell
  \<open>(r, c)\<close> of \<open>m\<close> at \<open>(c, R - 1 - r)\<close>, the counter-clockwise one at
  \<open>(C - 1 - c, r)\<close>. \<open>rotateAllPieces\<close> leaves the color of every tray piece as it
  was and replaces each shape by its rotation.
\<close>

theorem rotateMatrix_mapping:
  assumes "m \<noteq> []" and "rectangular m"
  shows "(\<exists>cw ccw.
            rotateMatrix m True = Some cw \<and> rotateMatrix m False = Some ccw \<and>
            length cw = length (m ! 0) \<and> length ccw = length (m ! 0) \<and>
            (\<forall>i < length (m ! 0). length (cw ! i) = length m \<and> length (ccw ! i) = length m) \<and>
            (\<forall>r < length m. \<forall>c < length (m ! 0).
               cw ! c ! (length m - 1 - r) = m ! r ! c \<and>
               ccw ! (length (m ! 0) - 1 - c) ! r = m ! r ! c)) \<and>
         (\<forall>s'. rotateAllPieces clockwise s = Some s' \<longrightarrow>
            map (map_option color) (activePieces s') = map (map_option color) (activePieces s) \<and>
            map (map_option (\<lambda>pc. Some (shape pc))) (activePieces s') =
              map (map_option (\<lambda>pc. rotateMatrix (shape pc) clockwise)) (activePieces s))"
proof -
  obtain cw where cw: "rotateMatrix m True = Some cw"
    using assms(1) by (simp add: rotateMatrix_Some)
  obtain ccw where ccw: "rotateMatrix m False = Some ccw"
    using assms(1) by (simp add: rotateMatrix_Some)
  have d1: "dims cw (length (m ! 0)) (length m)"
    using cw by (rule rotateMatrix_dims)
  have d2: "dims ccw (length (m ! 0)) (length m)"
    using ccw by (rule rotateMatrix_dims)
  have cells: "cw ! c ! (length m - 1 - r) = m ! r ! c \<and>
               ccw ! (length (m ! 0) - 1 - c) ! r = m ! r ! c"
    if "r < length m" and "c < length (m ! 0)" for r c
  proof -
    have "cw ! c ! (length m - 1 - r) = m ! (length m - 1 - (length m - 1 - r)) ! c"
      using that by (intro rotateMatrix_cw_nth [OF cw]) simp_all
    moreover have "length m - 1 - (length m - 1 - r) = r"
      using that(1) by arith
    moreover have "ccw ! (length (m ! 0) - 1 - c) ! r =
        m ! r ! (length (m ! 0) - 1 - (length (m ! 0) - 1 - c))"
      using that by (intro rotateMatrix_ccw_nth [OF ccw]) simp_all
    moreover have "length (m ! 0) - 1 - (length (m ! 0) - 1 - c) = c"
      using that(2) by arith
    ultimately show ?thesis by simp
  qed
  have col: "\<forall>s'. rotateAllPieces clockwise s = Some s' \<longrightarrow>
            map (map_option color) (activePieces s') = map (map_option color) (activePieces s) \<and>
            map (map_option (\<lambda>pc. Some (shape pc))) (activePieces s') =
              map (map_option (\<lambda>pc. rotateMatrix (shape pc) clockwise)) (activePieces s)"
    using activePieces_rotateAllPieces rotate_tray_colors rotate_tray_shapes by blast
  have "rotateMatrix m True = Some cw \<and> rotateMatrix m False = Some ccw \<and>
            length cw = length (m ! 0) \<and> length ccw = length (m ! 0) \<and>
            (\<forall>i < length (m ! 0). length (cw ! i) = length m \<and> length (ccw ! i) = length m) \<and>
            (\<forall>r < length m. \<forall>c < length (m ! 0).
               cw ! c ! (length m - 1 - r) = m ! r ! c \<and>
               ccw ! (length (m ! 0) - 1 - c) ! r = m ! r ! c)"
    using cw ccw d1 d2 cells by (simp add: dims_length dims_nth)
  then show ?thesis
    using col by blast
qed

theorem rotateMatrix_mapping_witness:
  "t_shape \<noteq> [] \<and> rectangular t_shape \<and>
   rotateMatrix t_shape True = Some [[1, 0], [1, 1], [1, 0]] \<and>
   rotateMatrix t_shape False = Some [[0, 1], [1, 1], [0, 1]] \<and>
   (\<exists>cw. rotateMatrix t_shape True = Some cw \<and> cw ! 2 ! 1 = t_shape ! 0 ! 2) \<and>
   map (map_option color) (activePieces (the (rotateAllPieces True tray_game))) =
     [Some ''#3357FF'', None, Some ''#FF5733'']"
proof -
  have ne: "t_shape \<noteq> []"
    by (simp add: t_shape_def)
  have re: "rectangular t_shape"
    by (simp add: t_shape_def rectangular_def)
  have a: "rotateMatrix t_shape True = Some [[1, 0], [1, 1], [1, 0]]"
    by code_simp
  have b: "rotateMatrix t_shape False = Some [[0, 1], [1, 1], [0, 1]]"
    by code_simp
  have l: "length t_shape = 2" "length (t_shape ! 0) = 3"
    by (simp_all add: t_shape_def)
  obtain s' where s': "rotateAllPieces True tray_game = Some s'"
    by (simp add: rotateAllPieces_def tray_game_def t_piece_def domino_def t_shape_def
        rotateMatrix_def)
  note inst = rotateMatrix_mapping [OF ne re, of True tray_game]
  from inst l have c: "\<exists>cw. rotateMatrix t_shape True = Some cw \<and> cw ! 2 ! 1 = t_shape ! 0 ! 2"
    by force
  from inst s'
  have "map (map_option color) (activePieces s') = map (map_option color) (activePieces tray_game)"
    by blast
  then have d: "map (map_option color) (activePieces (the (rotateAllPieces True tray_game))) =
     [Some ''#3357FF'', None, Some ''#FF5733'']"
    using s' by (simp add: tray_game_def t_piece_def domino_def)
  from ne re a b c d show ?thesis by blast
qed

text \<open>
  C8. For every shape matrix of the Small, Tetromino and Complex pools, four clockwise
  rotations give the matrix back, and so do four counter-clockwise rotations.
\<close>

theorem rotate4_pools:
  "list_all (\<lambda>m. rotate4 True m = Some m \<and> rotate4 False m = Some m)
     (SMALL_BLOCKS @ TETROMINOES @ COMPLEX_SHAPES)"
  by code_simp

section \<open>Piece generation\<close>

subsection \<open>Rounding to binary64\<close>

lemma rne_upper: "of_int (rne y) \<le> y + 1 / 2"
proof -
  define f where "f = \<lfloor>y\<rfloor>"
  have f: "of_int f \<le> y"
    by (simp add: f_def)
  have "rne y = (if y - of_int f < 1 / 2 then f else if 1 / 2 < y - of_int f then f + 1
                 else if even f then f else f + 1)"
    by (simp add: rne_def Let_def f_def)
  moreover have "of_int f \<le> y + 1 / 2"
    using f by linarith
  moreover have "\<not> y - of_int f < 1 / 2 \<Longrightarrow> of_int (f + 1) \<le> y + 1 / 2"
    by simp
  ultimately show ?thesis
    by presburger
qed

lemma rne_ge_int: "of_int m \<le> y \<Longrightarrow> m \<le> rne y"
proof -
  assume "of_int m \<le> y"
  then have "m \<le> \<lfloor>y\<rfloor>" by (simp add: le_floor_iff)
  then show ?thesis by (auto simp: rne_def Let_def)
qed

lemma rne_le_int: "y \<le> of_int n \<Longrightarrow> rne y \<le> n"
proof -
  assume a: "y \<le> of_int n"
  show ?thesis
  proof (cases "y = of_int n")
    case True
    then show ?thesis by (simp add: rne_def)
  next
    case False
    then have "y < of_int n" using a by simp
    then have "\<lfloor>y\<rfloor> < n" by (simp add: floor_less_iff)
    then show ?thesis by (auto simp: rne_def Let_def)
  qed
qed

lemma rne_of_int: "rne (of_int m) = m"
  by (simp add: rne_def)

lemma log2_floor_bounds:
  assumes "0 < x"
  shows "2 powi (log2_floor x) \<le> x" and "x < 2 powi (log2_floor x + 1)"
proof -
  obtain p q where pq: "quotient_of x = (p, q)"
    by (cases "quotient_of x")
  have q: "0 < q"
    using pq by (rule quotient_of_denom_pos)
  have x: "x = of_int p / of_int q"
    using pq by (rule quotient_of_div)
  have p: "0 < p"
    using assms q x by (simp add: zero_less_divide_iff)
  let ?k = "bitlen p - bitlen q"
  have bp: "1 \<le> bitlen p" and bq: "1 \<le> bitlen q"
    using p q bitlen_eq_zero_iff [of p] bitlen_eq_zero_iff [of q] bitlen_nonneg [of p]
      bitlen_nonneg [of q] by linarith+
  have p1: "(2::rat) powi (bitlen p - 1) \<le> of_int p" and p2: "of_int p < (2::rat) powi (bitlen p)"
  proof -
    have "2 ^ nat (bitlen p - 1) \<le> p" and "p < 2 ^ nat (bitlen p)"
      using bitlen_bounds [OF p] by simp_all
    then have "(of_int (2 ^ nat (bitlen p - 1)) :: rat) \<le> of_int p"
      and "(of_int p :: rat) < of_int (2 ^ nat (bitlen p))"
      by (simp_all only: of_int_le_iff of_int_less_iff)
    then show "(2::rat) powi (bitlen p - 1) \<le> of_int p" and "of_int p < (2::rat) powi (bitlen p)"
      using bp by (simp_all add: power_int_def)
  qed
  have q1: "(2::rat) powi (bitlen q - 1) \<le> of_int q" and q2: "of_int q < (2::rat) powi (bitlen q)"
  proof -
    have "2 ^ nat (bitlen q - 1) \<le> q" and "q < 2 ^ nat (bitlen q)"
      using bitlen_bounds [OF q] by simp_all
    then have "(of_int (2 ^ nat (bitlen q - 1)) :: rat) \<le> of_int q"
      and "(of_int q :: rat) < of_int (2 ^ nat (bitlen q))"
      by (simp_all only: of_int_le_iff of_int_less_iff)
    then show "(2::rat) powi (bitlen q - 1) \<le> of_int q" and "of_int q < (2::rat) powi (bitlen q)"
      using bq by (simp_all add: power_int_def)
  qed
  have qpos: "(0::rat) < of_int q" using q by simp
  have lo: "(2::rat) powi (?k - 1) < x"
  proof -
    have "(2::rat) powi (?k - 1) = 2 powi (bitlen p - 1) / 2 powi (bitlen q)"
      by (simp add: power_int_diff)
    also have "\<dots> \<le> of_int p / 2 powi (bitlen q)"
      using p1 by (simp add: divide_right_mono)
    also have "\<dots> < of_int p / of_int q"
      using q2 qpos p by (intro frac_less2) simp_all
    finally show ?thesis using x by simp
  qed
  have hi: "x < (2::rat) powi (?k + 1)"
  proof -
    have "x = of_int p / of_int q" by (rule x)
    also have "\<dots> < 2 powi (bitlen p) / of_int q"
      using p2 qpos by (simp add: divide_strict_right_mono)
    also have "\<dots> \<le> 2 powi (bitlen p) / 2 powi (bitlen q - 1)"
      using q1 by (intro frac_le) simp_all
    also have "\<dots> = 2 powi (?k + 1)"
      by (simp add: power_int_diff [symmetric] algebra_simps)
    finally show ?thesis .
  qed
  have def: "log2_floor x = (if 2 powi ?k \<le> x then ?k else ?k - 1)"
    using pq by (simp add: log2_floor_def Let_def)
  show "2 powi (log2_floor x) \<le> x"
    using def lo by (auto simp: less_imp_le)
  show "x < 2 powi (log2_floor x + 1)"
    using def hi by (auto simp: not_le)
qed

lemma log2_floor_ge:
  assumes "0 < x" and "2 powi k \<le> x"
  shows "k \<le> log2_floor x"
proof (rule ccontr)
  assume "\<not> k \<le> log2_floor x"
  then have "log2_floor x + 1 \<le> k" by simp
  then have "(2::rat) powi (log2_floor x + 1) \<le> 2 powi k"
    by (intro power_int_increasing) simp_all
  then show False
    using log2_floor_bounds(2) [OF assms(1)] assms(2) by linarith
qed

lemma log2_floor_less:
  assumes "0 < x" and "x < 2 powi k"
  shows "log2_floor x < k"
proof (rule ccontr)
  assume "\<not> log2_floor x < k"
  then have "k \<le> log2_floor x" by simp
  then have "(2::rat) powi k \<le> 2 powi (log2_floor x)"
    by (intro power_int_increasing) simp_all
  then show False
    using log2_floor_bounds(1) [OF assms(1)] assms(2) by linarith
qed

lemma binary64_pos:
  "0 < x \<Longrightarrow>
   binary64 x =
     of_int (rne (x / 2 powi (max (log2_floor x) (- 1022) - 52))) *
       2 powi (max (log2_floor x) (- 1022) - 52)"
  by (simp add: binary64_def Let_def)

text \<open>Below 1/2 the rounded value stays at or below 1/2.\<close>

lemma binary64_small:
  assumes "0 \<le> x" and "x < 1 / 2"
  shows "binary64 x \<le> 1 / 2"
proof (cases "x = 0")
  case True
  then show ?thesis by (simp add: binary64_def)
next
  case False
  then have pos: "0 < x" using assms(1) by simp
  define e where "e = max (log2_floor x) (- 1022)"
  define u :: rat where "u = 2 powi (e - 52)"
  have u: "0 < u" by (simp add: u_def)
  have "x < 2 powi (- 1)"
    using assms(2) by (simp add: power_int_minus)
  then have lf: "log2_floor x < - 1"
    by (rule log2_floor_less [OF pos])
  then have e: "e \<le> - 2"
    by (simp add: e_def)
  have "log2_floor x + 1 \<le> e + 1"
    by (simp add: e_def)
  then have "(2::rat) powi (log2_floor x + 1) \<le> 2 powi (e + 1)"
    by (intro power_int_increasing) simp_all
  then have xe: "x < 2 powi (e + 1)"
    using log2_floor_bounds(2) [OF pos] by linarith
  have "2 powi (e + 1) / u = (2::rat) powi 53"
    by (simp add: u_def power_int_diff [symmetric])
  then have "x / u \<le> 2 powi 53"
    using xe u by (metis divide_strict_right_mono less_imp_le)
  also have "(2::rat) powi 53 = of_int (2 ^ 53)"
    by (simp add: power_int_def)
  finally have "rne (x / u) \<le> 2 ^ 53"
    by (rule rne_le_int)
  then have "(of_int (rne (x / u)) :: rat) \<le> of_int (2 ^ 53)"
    by (simp only: of_int_le_iff)
  then have "of_int (rne (x / u)) * u \<le> of_int (2 ^ 53) * u"
    using u by (simp only: mult_right_mono less_imp_le)
  also have "of_int (2 ^ 53) * u = 2 powi (e + 1)"
  proof -
    have "e + 1 = 53 + (e - 52)"
      by simp
    then have "(2::rat) powi (e + 1) = 2 powi (53 + (e - 52))"
      by (rule arg_cong)
    also have "\<dots> = 2 powi 53 * 2 powi (e - 52)"
      by (rule power_int_add) simp
    also have "(2::rat) powi 53 = of_int (2 ^ 53)"
      by (simp add: power_int_def)
    finally show ?thesis
      by (simp only: u_def)
  qed
  also have "\<dots> \<le> 2 powi (- 1)"
    using e by (intro power_int_increasing) simp_all
  finally have "of_int (rne (x / u)) * u \<le> 1 / 2"
    by (simp add: power_int_minus)
  then show ?thesis
    by (simp only: binary64_pos [OF pos] e_def [symmetric] u_def [symmetric])
qed

text \<open>From 1/2 on the rounding error is at most the fraction \<open>2 ^ -53\<close> of the value.\<close>

lemma binary64_rel_error:
  assumes "1 / 2 \<le> x"
  shows "binary64 x \<le> x * (1 + 1 / 2 ^ 53)"
proof -
  have pos: "0 < x" using assms by simp
  have "2 powi (- 1) \<le> x"
    using assms by (simp add: power_int_minus)
  then have lf: "- 1 \<le> log2_floor x"
    by (rule log2_floor_ge [OF pos])
  define u :: rat where "u = 2 powi (log2_floor x - 52)"
  have u: "0 < u" by (simp add: u_def)
  have e: "max (log2_floor x) (- 1022) = log2_floor x"
    using lf by simp
  have "u = 2 powi (log2_floor x) / 2 powi 52"
    by (simp add: u_def power_int_diff)
  also have "\<dots> \<le> x / 2 powi 52"
    using log2_floor_bounds(1) [OF pos] by (simp add: divide_right_mono)
  finally have ux: "u \<le> x / 2 ^ 52"
    by (simp add: power_int_def)
  have "of_int (rne (x / u)) * u \<le> (x / u + 1 / 2) * u"
    using rne_upper [of "x / u"] u by (simp only: mult_right_mono less_imp_le)
  also have "\<dots> = x + u / 2"
    using u by (simp add: algebra_simps)
  also have "\<dots> \<le> x + (x / 2 ^ 52) / 2"
    using ux by simp
  also have "\<dots> = x * (1 + 1 / 2 ^ 53)"
    by (simp add: algebra_simps)
  finally show ?thesis
    using pos e by (simp add: binary64_pos u_def)
qed


text \<open>The largest binary64 value below 1 is \<open>1 - 2 ^ -53\<close>.\<close>

lemma binary64_below_one:
  assumes "binary64 d = d" and "d < 1"
  shows "d \<le> 1 - 1 / 2 ^ 53"
proof (cases "d < 1 / 2")
  case True
  then show ?thesis by simp
next
  case False
  then have half: "1 / 2 \<le> d" by simp
  then have pos: "0 < d" by simp
  have "2 powi (- 1) \<le> d"
    using half by (simp add: power_int_minus)
  then have "- 1 \<le> log2_floor d"
    by (rule log2_floor_ge [OF pos])
  moreover have "d < 2 powi 0"
    using assms(2) by simp
  then have "log2_floor d < 0"
    by (rule log2_floor_less [OF pos])
  ultimately have lf: "log2_floor d = - 1" by simp
  have eq: "d = of_int (rne (d / 2 powi (- 53))) * 2 powi (- 53)"
    using assms(1) pos lf by (simp add: binary64_pos)
  define R where "R = rne (d / 2 powi (- 53))"
  have d: "d = of_int R / 2 ^ 53"
    using eq by (simp add: R_def power_int_minus field_simps)
  then have "(of_int R :: rat) < of_int (2 ^ 53)"
    using assms(2) by (simp add: field_simps)
  then have "R < 2 ^ 53"
    by (simp only: of_int_less_iff)
  then have "R \<le> 2 ^ 53 - 1" by simp
  then have "(of_int R :: rat) \<le> of_int (2 ^ 53 - 1)"
    by (simp only: of_int_le_iff)
  then show ?thesis
    using d by (simp add: field_simps)
qed

subsection \<open>The index picked by a draw\<close>

lemma binary64_nonneg: "0 \<le> x \<Longrightarrow> 0 \<le> binary64 x"
  by (cases "x = 0") (simp_all add: binary64_def Let_def sgn_if rne_ge_int)

lemma pick_index_less:
  assumes "is_draw d" and "0 < n"
  shows "nat \<lfloor>binary64 (d * of_nat n)\<rfloor> < n"
proof -
  let ?x = "d * of_nat n"
  have x0: "0 \<le> ?x"
    using assms(1) by (simp add: is_draw_def)
  have "binary64 ?x < of_nat n"
  proof (cases "?x < 1 / 2")
    case True
    then have "binary64 ?x \<le> 1 / 2"
      by (rule binary64_small [OF x0])
    also have "\<dots> < 1"
      by simp
    also have "1 \<le> (of_nat n :: rat)"
      using assms(2) by simp
    finally show ?thesis .
  next
    case False
    then have "binary64 ?x \<le> ?x * (1 + 1 / 2 ^ 53)"
      by (intro binary64_rel_error) simp
    also have "\<dots> \<le> ((1 - 1 / 2 ^ 53) * of_nat n) * (1 + 1 / 2 ^ 53)"
      using binary64_below_one [of d] assms(1)
      by (intro mult_right_mono) (simp_all add: is_draw_def)
    also have "\<dots> = of_nat n * ((1 - 1 / 2 ^ 53) * (1 + 1 / 2 ^ 53))"
      by (simp only: mult.assoc mult.commute mult.left_commute)
    also have "\<dots> < of_nat n * 1"
      using assms(2) by (intro mult_strict_left_mono) simp_all
    finally show ?thesis by simp
  qed
  then have "\<lfloor>binary64 ?x\<rfloor> < int n"
    by (simp add: floor_less_iff)
  then show ?thesis
    using binary64_nonneg [OF x0] by linarith
qed


lemma pool_lengths:
  "length SMALL_BLOCKS = 3" "length TETROMINOES = 11" "length COMPLEX_SHAPES = 4"
  "length COLORS = 6"
  by (simp_all add: SMALL_BLOCKS_def TETROMINOES_def COMPLEX_SHAPES_def COLORS_def)

lemma shapesPool_cases:
  "shapesPool lvl d = SMALL_BLOCKS \<or> shapesPool lvl d = TETROMINOES \<or>
   shapesPool lvl d = COMPLEX_SHAPES"
  by (simp add: shapesPool_def Let_def)

lemma shapesPool_length:
  "length (shapesPool lvl d) = 3 \<or> length (shapesPool lvl d) = 11 \<or>
   length (shapesPool lvl d) = 4"
  using shapesPool_cases [of lvl d] pool_lengths by metis

lemma shapesPool_nonempty: "0 < length (shapesPool lvl d)"
  using shapesPool_length [of lvl d] by auto


subsection \<open>The threshold literals\<close>












section \<open>Every state of a session is well formed\<close>

lemma wf_pools: "list_all wf_shape (SMALL_BLOCKS @ TETROMINOES @ COMPLEX_SHAPES)"
  by code_simp

lemma wf_shape_pool:
  assumes "i < length (shapesPool lvl d)"
  shows "wf_shape (shapesPool lvl d ! i)"
proof -
  have "shapesPool lvl d ! i \<in> set (shapesPool lvl d)"
    using assms by simp
  then have "shapesPool lvl d ! i \<in> set (SMALL_BLOCKS @ TETROMINOES @ COMPLEX_SHAPES)"
    using shapesPool_cases [of lvl d] by auto
  then show ?thesis
    using wf_pools by (simp only: list_all_iff)
qed

lemma wf_shape_generateRandomPiece:
  "double_draws ds \<Longrightarrow> wf_shape (shape (generateRandomPiece s ds))"
proof -
  obtain d1 d2 d3 where ds: "ds = (d1, d2, d3)"
    by (cases ds)
  assume "double_draws ds"
  then have "is_draw d2"
    using ds by (simp add: double_draws_def)
  then have "nat \<lfloor>binary64 (d2 * of_nat (length (shapesPool (level s) d1)))\<rfloor>
      < length (shapesPool (level s) d1)"
    using shapesPool_nonempty by (rule pick_index_less)
  then show ?thesis
    using ds by (simp add: generateRandomPiece_def Let_def wf_shape_pool)
qed

lemma wf_tray_spawnPieces:
  "double_tray_draws td \<Longrightarrow> wf_tray (activePieces (spawnPieces td s))"
  by (cases td)
    (simp add: double_tray_draws_def spawnPieces_def checkGameOver_fields wf_tray_def
      wf_shape_generateRandomPiece)

lemma wf_tray_update_None: "wf_tray ps \<Longrightarrow> wf_tray (ps[idx := None])"
  by (cases "idx < length ps") (auto simp: wf_tray_def list_all_length nth_list_update)

lemma dims_rectangular: "dims m a b \<Longrightarrow> rectangular m"
  by (cases "a = 0") (auto simp: dims_def rectangular_def list_all_length)

lemma wf_shape_rotateMatrix:
  assumes "wf_shape m" and "rotateMatrix m cw = Some m'"
  shows "wf_shape m'"
proof -
  have d: "dims m' (length (m ! 0)) (length m)"
    using assms(2) by (rule rotateMatrix_dims)
  have c: "0 < length (m ! 0)" and r: "0 < length m"
    using assms(1) by (simp_all add: wf_shape_def)
  have "m' \<noteq> []"
    using d c by (auto simp: dims_def)
  moreover have "m' ! 0 \<noteq> []"
    using dims_nth [OF d c] r by auto
  ultimately show ?thesis
    using d by (simp add: wf_shape_def dims_rectangular)
qed

lemma rotate_tray_wf:
  "wf_tray ps \<Longrightarrow> \<exists>ps'. rotate_tray cw ps = Some ps' \<and> wf_tray ps'"
proof (induction ps)
  case Nil
  show ?case by (simp add: wf_tray_def)
next
  case (Cons p ps)
  then obtain ps' where ps': "rotate_tray cw ps = Some ps'" "wf_tray ps'"
    by (auto simp: wf_tray_def)
  show ?case
  proof (cases p)
    case None
    then show ?thesis using ps' by (simp add: wf_tray_def)
  next
    case (Some pc)
    then have w: "wf_shape (shape pc)"
      using Cons.prems by (simp add: wf_tray_def)
    then obtain m' where m': "rotateMatrix (shape pc) cw = Some m'"
      by (auto simp: wf_shape_def rotateMatrix_Some)
    have "wf_shape m'"
      using w m' by (rule wf_shape_rotateMatrix)
    then show ?thesis
      using Some ps' m' by (simp add: wf_tray_def)
  qed
qed

lemma wf_board_placePiece: "wf_board (grid s) \<Longrightarrow> wf_board (grid (placePiece col row pc s))"
  using wf_board_checkForLines [of "s\<lparr>grid := placed_board s col row pc\<rparr>"]
  by (simp add: placePiece_eq wf_board_placed_board)

lemma wf_tryPlacePiece:
  "wf_board (grid s) \<Longrightarrow> wf_board (grid (snd (tryPlacePiece p col row s)))"
  "activePieces (snd (tryPlacePiece p col row s)) = activePieces s"
  by (simp_all add: tryPlacePiece_def wf_board_placePiece placePiece_mono split: option.splits)

lemma wf_game_onUp:
  assumes "wf_game s" and "double_tray_draws td"
  shows "wf_game (onUp idx col row td s)"
proof -
  let ?p = "case js_index (activePieces s) idx of None \<Rightarrow> None | Some p \<Rightarrow> p"
  have g: "wf_board (grid (snd (tryPlacePiece ?p col row s)))"
    using assms(1) by (simp add: wf_game_def wf_tryPlacePiece)
  have t: "wf_tray ((activePieces s)[idx := None])" "wf_tray (activePieces s)"
    using assms(1) by (simp_all add: wf_game_def wf_tray_update_None)
  show ?thesis
    using g t assms(2)
    by (simp add: onUp_eq Let_def wf_game_def spawnPieces_fields checkGameOver_fields
        wf_tryPlacePiece(2) wf_tray_spawnPieces)
qed

lemma session_wf_game: "session s \<Longrightarrow> wf_game s"
proof (induction rule: session.induct)
  case (session_new td stored hidden)
  have "wf_board (grid (new_Game stored hidden td))"
    by (simp add: new_Game_fields wf_board_empty_grid)
  moreover have "wf_tray (activePieces (new_Game stored hidden td))"
    using session_new by (simp add: new_Game_def init_def wf_tray_spawnPieces)
  ultimately show ?case
    by (simp add: wf_game_def)
next
  case (session_restart s td)
  have "wf_board (grid (restartGame td s))"
    by (simp add: restartGame_fields wf_board_empty_grid)
  moreover have "wf_tray (activePieces (restartGame td s))"
    using session_restart by (simp add: restartGame_def Let_def wf_tray_spawnPieces)
  ultimately show ?case
    by (simp add: wf_game_def)
next
  case (session_onUp s td idx col row)
  then show ?case by (simp add: wf_game_onUp)
next
  case (session_rotate s clockwise s')
  obtain ps' where "rotate_tray clockwise (activePieces s) = Some ps'" "wf_tray ps'"
    using session_rotate.IH rotate_tray_wf [of "activePieces s" clockwise]
    by (auto simp: wf_game_def)
  then show ?case
    using session_rotate.IH session_rotate.hyps(2) rotateAllPieces_fields [of clockwise s s']
      activePieces_rotateAllPieces [of clockwise s s']
    by (simp add: wf_game_def)
qed

lemma session_rotate_total: "session s \<Longrightarrow> rotateAllPieces cw s \<noteq> None"
  using session_wf_game [of s] rotate_tray_wf [of "activePieces s" cw]
  by (auto simp: wf_game_def rotateAllPieces_def)

lemma double_tray_draws_valid: "double_tray_draws td \<Longrightarrow> valid_tray_draws td"
  by (auto simp: double_tray_draws_def double_draws_def valid_tray_draws_def valid_draws_def
      is_draw_def split: prod.splits)

lemma session_reachable: "session s \<Longrightarrow> reachable s"
  by (induction rule: session.induct)
    (auto intro: reachable.intros dest: double_tray_draws_valid)

end
